theory Spec2Isabelle
  imports Complex_Main "HOL-Library.AList" "HOL-Library.Sublist"
begin

section \<open>The request/response multiplexer \<open>cdp(ws)\<close>\<close>

text \<open>
  Both scripts build their call function with \<open>cdp(ws)\<close>: a counter \<open>id\<close>, a table
  \<open>map\<close> from correlation id to the callbacks of the promise that waits for the answer,
  a \<open>message\<close> handler on the socket and one timer per call. The model is an event
  system: the state holds the counter, the table (an association list in insertion
  order, as a JavaScript \<open>Map\<close> iterates), the timers that are armed, and the list of
  every invocation of a \<open>resolve\<close> or \<open>reject\<close> callback, in order. A promise is named by
  the value \<open>id\<close> had when its call created it. Time is not measured: that a timer's
  delay has run out is the event \<open>Timeout k\<close> for the timer armed by call \<open>k\<close>.

  An inbound frame is the text of a socket message. \<open>JSON.parse\<close> may throw
  (\<open>Unparseable\<close>); otherwise the handler reads \<open>d.id\<close> and \<open>d.error\<close>. \<open>frame_id\<close> is
  \<open>None\<close> when \<open>d\<close> is falsy or \<open>typeof d.id\<close> is not \<open>number\<close> (a number that is not
  an integer is no key of the table and behaves the same). \<open>d.error\<close> is absent, present
  and falsy (\<open>null\<close>, \<open>false\<close>, \<open>0\<close>, the empty string), or truthy; a truthy one
  carries \<open>Some m\<close> when \<open>d.error.message\<close> is the string \<open>m\<close>.
\<close>

datatype error_field = ErrAbsent | ErrFalsy | ErrTruthy "string option"

datatype frame =
    Unparseable
  | Parsed (frame_id: "int option") (frame_error: error_field) (frame_body: string)

datatype settlement = Resolved frame | Rejected string

record entry =
  e_promise :: int
  e_tid :: "int option"

record timer =
  t_promise :: int
  t_method :: string

record mux =
  id_var :: int
  pending :: "(int \<times> entry) list"
  timers :: "(int \<times> timer) list"
  settled :: "(int \<times> settlement) list"

definition cdp_init :: mux where
  "cdp_init = \<lparr>id_var = 0, pending = [], timers = [], settled = []\<rparr>"

definition settle :: "int \<Rightarrow> settlement \<Rightarrow> mux \<Rightarrow> mux" where
  "settle p out s = s\<lparr>settled := settled s @ [(p, out)]\<rparr>"

definition clearTimeout :: "int \<Rightarrow> mux \<Rightarrow> mux" where
  "clearTimeout t s = s\<lparr>timers := AList.delete t (timers s)\<rparr>"

text \<open>
  \<open>invocations p s\<close>: the callbacks of promise \<open>p\<close> that have been invoked so far. A
  JavaScript promise takes its state from the first one and ignores the rest, so
  \<open>promise_state\<close> is \<open>None\<close> while the promise is pending and the first invocation
  afterwards.
\<close>

definition invocations :: "int \<Rightarrow> mux \<Rightarrow> settlement list" where
  "invocations p s = map snd (filter (\<lambda>q. fst q = p) (settled s))"

definition promise_state :: "int \<Rightarrow> mux \<Rightarrow> settlement option" where
  "promise_state p s = (case invocations p s of [] \<Rightarrow> None | out # _ \<Rightarrow> Some out)"

subsection \<open>The opener's multiplexer (1-newchat-opener.js, lines 99-152)\<close>

text \<open>
  \<open>cdp_call method send_ok\<close> is one invocation of the returned call function;
  \<open>send_ok\<close> is false when \<open>ws.send\<close> throws. The counter is incremented first. The
  timer's callback and \<open>map.set\<close> both mention the variable \<open>id\<close>: \<open>map.set\<close> runs
  synchronously inside the promise executor and sees this call's value; the timer's
  callback runs later and reads the variable then (\<open>cdp_on_timeout\<close>), while it
  closes over this call's own \<open>reject\<close> and \<open>method\<close>.
\<close>

definition cdp_call :: "string \<Rightarrow> bool \<Rightarrow> mux \<Rightarrow> mux" where
  "cdp_call method send_ok s =
     (let i = id_var s + 1; s1 = s\<lparr>id_var := i\<rparr>
      in if \<not> send_ok then settle i (Rejected ''Failed to send CDP message'') s1
         else s1\<lparr>timers := AList.update i \<lparr>t_promise = i, t_method = method\<rparr> (timers s1),
                 pending := AList.update i \<lparr>e_promise = i, e_tid = Some i\<rparr> (pending s1)\<rparr>)"

definition cdp_on_message :: "frame \<Rightarrow> mux \<Rightarrow> mux" where
  "cdp_on_message m s =
     (case m of
        Unparseable \<Rightarrow> s
      | Parsed fid err body \<Rightarrow>
          (case fid of
             None \<Rightarrow> s
           | Some k \<Rightarrow>
               (case map_of (pending s) k of
                  None \<Rightarrow> s
                | Some e \<Rightarrow>
                    (let s1 = s\<lparr>pending := AList.delete k (pending s)\<rparr>;
                         s2 = (case e_tid e of Some t \<Rightarrow> clearTimeout t s1 | None \<Rightarrow> s1)
                     in case err of
                          ErrTruthy msg \<Rightarrow>
                            settle (e_promise e)
                              (Rejected (case msg of Some t \<Rightarrow> t | None \<Rightarrow> ''cdp error'')) s2
                        | _ \<Rightarrow> settle (e_promise e) (Resolved m) s2))))"

text \<open>
  The \<open>error\<close> and \<open>close\<close> handlers run the same loop over \<open>map.entries()\<close>: clear the
  entry's timer, invoke its \<open>reject\<close>, delete its key. Deleting the current key of a
  \<open>Map\<close> while iterating it skips no other entry, so the loop visits the entries the
  table held when the handler started.
\<close>

definition reject_entry :: "string \<Rightarrow> int \<times> entry \<Rightarrow> mux \<Rightarrow> mux" where
  "reject_entry why kv s =
     (let s1 = (case e_tid (snd kv) of Some t \<Rightarrow> clearTimeout t s | None \<Rightarrow> s);
          s2 = settle (e_promise (snd kv)) (Rejected why) s1
      in s2\<lparr>pending := AList.delete (fst kv) (pending s2)\<rparr>)"

definition cdp_on_error :: "mux \<Rightarrow> mux" where
  "cdp_on_error s = fold (reject_entry ''ws error'') (pending s) s"

definition cdp_on_close :: "mux \<Rightarrow> mux" where
  "cdp_on_close s = fold (reject_entry ''ws closed'') (pending s) s"

text \<open>
  The timer armed by call \<open>k\<close> fires. A timer that was cleared, or has fired, cannot
  fire: the event changes nothing then. The callback tests and deletes the key
  \<open>id\<close>, the counter's value now, and invokes the \<open>reject\<close> of call \<open>k\<close>.
\<close>

definition cdp_on_timeout :: "int \<Rightarrow> mux \<Rightarrow> mux" where
  "cdp_on_timeout k s =
     (case map_of (timers s) k of
        None \<Rightarrow> s
      | Some t \<Rightarrow>
          (let s1 = s\<lparr>timers := AList.delete k (timers s)\<rparr>
           in if map_of (pending s1) (id_var s1) \<noteq> None
              then settle (t_promise t) (Rejected (''cdp timeout for '' @ t_method t))
                     (s1\<lparr>pending := AList.delete (id_var s1) (pending s1)\<rparr>)
              else s1))"

datatype event =
    Call string bool
  | Message frame
  | SocketError
  | SocketClose
  | Timeout int

fun cdp_step :: "event \<Rightarrow> mux \<Rightarrow> mux" where
  "cdp_step (Call method send_ok) s = cdp_call method send_ok s"
| "cdp_step (Message m) s = cdp_on_message m s"
| "cdp_step SocketError s = cdp_on_error s"
| "cdp_step SocketClose s = cdp_on_close s"
| "cdp_step (Timeout k) s = cdp_on_timeout k s"

definition cdp_run :: "event list \<Rightarrow> mux" where
  "cdp_run evs = fold cdp_step evs cdp_init"

subsection \<open>The injector's multiplexer (2-chat-injector.js, lines 131-157)\<close>

text \<open>
  The same counter and table, with a \<open>message\<close> handler that takes only \<open>resolve\<close> from
  the entry, no \<open>error\<close> or \<open>close\<close> handler, and a timer that is never cleared. When
  \<open>ws.send\<close> throws inside the async call function, the promise it returns is rejected
  with what was thrown.
\<close>

definition cdp2_call :: "string \<Rightarrow> bool \<Rightarrow> mux \<Rightarrow> mux" where
  "cdp2_call method send_ok s =
     (let i = id_var s + 1; s1 = s\<lparr>id_var := i\<rparr>
      in if \<not> send_ok then settle i (Rejected ''send failed'') s1
         else s1\<lparr>pending := AList.update i \<lparr>e_promise = i, e_tid = None\<rparr> (pending s1),
                 timers := AList.update i \<lparr>t_promise = i, t_method = method\<rparr> (timers s1)\<rparr>)"

definition cdp2_on_message :: "frame \<Rightarrow> mux \<Rightarrow> mux" where
  "cdp2_on_message m s =
     (case m of
        Unparseable \<Rightarrow> s
      | Parsed fid err body \<Rightarrow>
          (case fid of
             None \<Rightarrow> s
           | Some k \<Rightarrow>
               (case map_of (pending s) k of
                  None \<Rightarrow> s
                | Some e \<Rightarrow>
                    settle (e_promise e) (Resolved m)
                      (s\<lparr>pending := AList.delete k (pending s)\<rparr>))))"

definition cdp2_on_timeout :: "int \<Rightarrow> mux \<Rightarrow> mux" where
  "cdp2_on_timeout k s =
     (case map_of (timers s) k of
        None \<Rightarrow> s
      | Some t \<Rightarrow>
          (let s1 = s\<lparr>timers := AList.delete k (timers s)\<rparr>
           in if map_of (pending s1) (id_var s1) \<noteq> None
              then settle (t_promise t) (Rejected ''cdp timeout'')
                     (s1\<lparr>pending := AList.delete (id_var s1) (pending s1)\<rparr>)
              else s1))"

fun cdp2_step :: "event \<Rightarrow> mux \<Rightarrow> mux" where
  "cdp2_step (Call method send_ok) s = cdp2_call method send_ok s"
| "cdp2_step (Message m) s = cdp2_on_message m s"
| "cdp2_step SocketError s = s"
| "cdp2_step SocketClose s = s"
| "cdp2_step (Timeout k) s = cdp2_on_timeout k s"

definition cdp2_run :: "event list \<Rightarrow> mux" where
  "cdp2_run evs = fold cdp2_step evs cdp_init"

text \<open>
  What holds of the opener's multiplexer after every sequence of events: an entry is
  stored under the id of its own promise and timer, no \<open>resolve\<close> of a promise
  that is still in the table has been invoked, and no id beyond the counter is in use.
\<close>

definition mux_inv :: "mux \<Rightarrow> bool" where
  "mux_inv s \<longleftrightarrow>
     (\<forall>kv \<in> set (pending s).
        e_promise (snd kv) = fst kv \<and> e_tid (snd kv) = Some (fst kv) \<and>
        fst kv \<le> id_var s \<and>
        (\<forall>f. (fst kv, Resolved f) \<notin> set (settled s))) \<and>
     (\<forall>q \<in> set (settled s). fst q \<le> id_var s) \<and>
     (\<forall>t \<in> set (timers s). t_promise (snd t) \<le> id_var s)"

section \<open>JavaScript numbers\<close>

text \<open>
  A number of the scripts is an IEEE 754 double. \<open>Finite q\<close> is the double of value
  \<open>q\<close>, positive zero when \<open>q = 0\<close>, and \<open>NegZero\<close> is \<open>-0\<close>; \<open>dval\<close> reads the
  value of a finite double. An arithmetic operation returns the double nearest to the
  exact result, a tie going to the even significand: this is \<open>round_to_double\<close>, with
  53 bits from \<open>2 ^ -1022\<close> on, the multiples of \<open>2 ^ -1074\<close> below, and an infinity
  when the rounded magnitude reaches \<open>2 ^ 1024\<close>. It is also the number
  \<open>JSON.parse\<close> yields for a decimal literal. \<open>binade a\<close> is the exponent of the
  power of two at or below \<open>a\<close>.
\<close>

datatype double = Finite rat | NegZero | PosInf | NegInf | NaN

definition pow2 :: "int \<Rightarrow> rat" where
  "pow2 e = (if 0 \<le> e then 2 ^ nat e else 1 / 2 ^ nat (- e))"

function bit_length :: "int \<Rightarrow> int" where
  "bit_length n = (if n \<le> 0 then 0 else 1 + bit_length (n div 2))"
  by pat_completeness auto
termination
  by (relation "measure nat") auto

definition binade :: "rat \<Rightarrow> int" where
  "binade a =
     (if 1 \<le> a then bit_length \<lfloor>a\<rfloor> - 1
      else (let k = bit_length \<lfloor>1 / a\<rfloor> in if pow2 (1 - k) \<le> a then 1 - k else - k))"

definition ties_to_even :: "int \<Rightarrow> rat \<Rightarrow> int" where
  "ties_to_even f r =
     (if r < 1 / 2 then f else if 1 / 2 < r then f + 1 else if even f then f else f + 1)"

definition round_half_even :: "rat \<Rightarrow> int" where
  "round_half_even x = ties_to_even \<lfloor>x\<rfloor> (x - of_int \<lfloor>x\<rfloor>)"

definition ulp_of :: "rat \<Rightarrow> rat" where
  "ulp_of a = pow2 (max (binade a) (- 1022) - 52)"

definition nearest_multiple :: "rat \<Rightarrow> rat \<Rightarrow> rat" where
  "nearest_multiple a ulp = of_int (round_half_even (a / ulp)) * ulp"

definition zero_of :: "bool \<Rightarrow> double" where
  "zero_of s = (if s then NegZero else Finite 0)"

definition inf_of :: "bool \<Rightarrow> double" where
  "inf_of s = (if s then NegInf else PosInf)"

definition with_sign :: "bool \<Rightarrow> rat \<Rightarrow> double" where
  "with_sign s r =
     (if pow2 1024 \<le> r then inf_of s
      else if r = 0 then zero_of s
      else Finite (if s then - r else r))"

definition round_to_double :: "rat \<Rightarrow> double" where
  "round_to_double q =
     (if q = 0 then Finite 0 else with_sign (q < 0) (nearest_multiple \<bar>q\<bar> (ulp_of \<bar>q\<bar>)))"

text \<open>
  The operators: \<open>js_add\<close>, \<open>js_sub\<close>, \<open>js_mul\<close> and \<open>js_div\<close> are \<open>+\<close>, \<open>-\<close>,
  \<open>*\<close> and \<open>/\<close> on numbers, with the signed zeros, the infinities and \<open>NaN\<close> of the
  standard; \<open>js_lt\<close>, \<open>js_gt\<close> and \<open>js_le\<close> are \<open><\<close>, \<open>>\<close> and \<open><=\<close>, false as
  soon as an operand is \<open>NaN\<close>. \<open>Math_max\<close> and \<open>Math_min\<close> take the list of their
  arguments, start from \<open>-Infinity\<close> and \<open>Infinity\<close>, and rank \<open>+0\<close> above \<open>-0\<close>.
  \<open>Math_round\<close> rounds to the nearest integer, a half upwards, and keeps the sign of a
  zero result.
\<close>

fun is_finite :: "double \<Rightarrow> bool" where
  "is_finite (Finite q) = True"
| "is_finite NegZero = True"
| "is_finite d = False"

fun dval :: "double \<Rightarrow> rat" where
  "dval (Finite q) = q"
| "dval d = 0"

fun negative :: "double \<Rightarrow> bool" where
  "negative (Finite q) = (q < 0)"
| "negative NegZero = True"
| "negative NegInf = True"
| "negative d = False"

fun js_neg :: "double \<Rightarrow> double" where
  "js_neg (Finite q) = (if q = 0 then NegZero else Finite (- q))"
| "js_neg NegZero = Finite 0"
| "js_neg PosInf = NegInf"
| "js_neg NegInf = PosInf"
| "js_neg NaN = NaN"

definition js_add :: "double \<Rightarrow> double \<Rightarrow> double" where
  "js_add a b =
     (if a = NaN \<or> b = NaN then NaN
      else if \<not> is_finite a then (if \<not> is_finite b \<and> b \<noteq> a then NaN else a)
      else if \<not> is_finite b then b
      else if dval a + dval b = 0 then zero_of (a = NegZero \<and> b = NegZero)
      else round_to_double (dval a + dval b))"

definition js_sub :: "double \<Rightarrow> double \<Rightarrow> double" where
  "js_sub a b = js_add a (js_neg b)"

definition js_mul :: "double \<Rightarrow> double \<Rightarrow> double" where
  "js_mul a b =
     (if a = NaN \<or> b = NaN then NaN
      else if \<not> is_finite a \<or> \<not> is_finite b
           then (if (is_finite a \<and> dval a = 0) \<or> (is_finite b \<and> dval b = 0) then NaN
                 else inf_of (negative a \<noteq> negative b))
      else if dval a * dval b = 0 then zero_of (negative a \<noteq> negative b)
      else round_to_double (dval a * dval b))"

definition js_div :: "double \<Rightarrow> double \<Rightarrow> double" where
  "js_div a b =
     (if a = NaN \<or> b = NaN then NaN
      else if \<not> is_finite a
           then (if \<not> is_finite b then NaN else inf_of (negative a \<noteq> negative b))
      else if \<not> is_finite b then zero_of (negative a \<noteq> negative b)
      else if dval b = 0
           then (if dval a = 0 then NaN else inf_of (negative a \<noteq> negative b))
      else if dval a = 0 then zero_of (negative a \<noteq> negative b)
      else round_to_double (dval a / dval b))"

fun js_lt :: "double \<Rightarrow> double \<Rightarrow> bool" where
  "js_lt NaN b = False"
| "js_lt a NaN = False"
| "js_lt PosInf b = False"
| "js_lt a PosInf = True"
| "js_lt a NegInf = False"
| "js_lt NegInf b = True"
| "js_lt a b = (dval a < dval b)"

definition js_gt :: "double \<Rightarrow> double \<Rightarrow> bool" where
  "js_gt a b = js_lt b a"

definition js_le :: "double \<Rightarrow> double \<Rightarrow> bool" where
  "js_le a b = (a \<noteq> NaN \<and> b \<noteq> NaN \<and> \<not> js_lt b a)"

definition js_max2 :: "double \<Rightarrow> double \<Rightarrow> double" where
  "js_max2 a b =
     (if a = NaN \<or> b = NaN then NaN
      else if js_lt a b then b
      else if js_lt b a then a
      else if a = NegZero then b else a)"

definition js_min2 :: "double \<Rightarrow> double \<Rightarrow> double" where
  "js_min2 a b =
     (if a = NaN \<or> b = NaN then NaN
      else if js_lt a b then a
      else if js_lt b a then b
      else if b = NegZero then b else a)"

definition Math_max :: "double list \<Rightarrow> double" where
  "Math_max vs = foldl js_max2 NegInf vs"

definition Math_min :: "double list \<Rightarrow> double" where
  "Math_min vs = foldl js_min2 PosInf vs"

fun Math_round :: "double \<Rightarrow> double" where
  "Math_round (Finite q) =
     (if \<lfloor>q + 1 / 2\<rfloor> = 0 \<and> q < 0 then NegZero else Finite (of_int \<lfloor>q + 1 / 2\<rfloor>))"
| "Math_round d = d"

section \<open>The opener's strategies (1-newchat-opener.js)\<close>

text \<open>
  The strategies, the verifier and \<open>main\<close> reach the browser only through
  \<open>call\<close>, the function \<open>cdp(ws)\<close> returns; each use is \<open>await call(method, params)\<close>.
  They are modelled against an oracle for that function: a request is answered, in the
  state of the world at that moment, either by a rejection (the awaited promise rejects
  and \<open>await\<close> throws) or by the frame the promise resolved with, and the world moves
  on. Nothing is assumed of the oracle, so a theorem about a strategy holds whatever the
  browser and the multiplexer do, timeouts included (the \<open>timeout\<close> option of a call is
  part of what the oracle decides).
\<close>

subsection \<open>Values, requests and replies\<close>

text \<open>
  A JavaScript string is the list of its UTF-16 code units; \<open>ascii\<close> writes one from
  ASCII text, and \<open>js_includes\<close> is \<open>String.prototype.includes\<close>. A result object
  \<open>{ ok, backendNodeId, x, y, via }\<close> is a record whose optional fields are absent when
  \<open>None\<close>; \<open>x_pos\<close> and \<open>y_pos\<close> are the fields \<open>x\<close> and \<open>y\<close>, and \<open>ok\<close> is the
  truthiness of the field \<open>ok\<close>. \<open>fail_result\<close> is the literal \<open>{ ok:false }\<close>.
\<close>

type_synonym jstring = "nat list"

definition ascii :: "string \<Rightarrow> jstring" where
  "ascii cs = map of_char cs"

fun js_includes :: "'a list \<Rightarrow> 'a list \<Rightarrow> bool" where
  "js_includes [] needle = (needle = [])"
| "js_includes (c # cs) needle = (prefix needle (c # cs) \<or> js_includes cs needle)"

record result =
  ok :: bool
  backendNodeId :: "int option"
  x_pos :: "double option"
  y_pos :: "double option"
  via :: "string option"

definition fail_result :: result where
  "fail_result = \<lparr>ok = False, backendNodeId = None, x_pos = None, y_pos = None, via = None\<rparr>"

text \<open>
  A request is the method with the parameters that vary. The two function declarations
  passed to \<open>Runtime.callFunctionOn\<close> (read \<open>innerText||textContent\<close>; scroll into
  view and click) and the three expressions passed to \<open>Runtime.evaluate\<close> are fixed
  texts of the source, named by constructors.
\<close>

datatype fn_decl = ReadText | ScrollAndClick

datatype mouse_event = MousePressed | MouseReleased

datatype expression = ClickExprRuntime | ClickExprFrame | VerifyExpr

datatype request =
    DOM_getDocument
  | Accessibility_queryAXTree int
  | Accessibility_getFullAXTree
  | DOM_getBoxModel int
  | DOM_resolveNode int
  | Runtime_callFunctionOn jstring fn_decl
  | Input_dispatchMouseEvent mouse_event double double
  | Runtime_evaluate expression "int option"
  | Page_getFrameTree
  | Page_createIsolatedWorld jstring

text \<open>
  The opener's call function resolves with the whole inbound frame \<open>d\<close>. A reply
  is that frame, as the fields the code reads from it, each at the place it reads it:
  \<open>bm?.model?.content\<close> (and \<open>border\<close>, \<open>margin\<close>), \<open>ax?.nodes\<close>,
  \<open>doc?.root?.nodeId\<close>, \<open>rn?.object?.objectId\<close>, \<open>r?.result?.result?.value\<close>,
  \<open>ft?.frameTree\<close> and \<open>iw?.executionContextId\<close>; a field that is missing is
  \<open>None\<close>. The numbers of a quad, like the coordinates of a result object, are
  doubles. A value returned by value from the page is a string or an object read as a
  result object.
\<close>

record box_model =
  content :: "double list option"
  border :: "double list option"
  margin :: "double list option"

record ax_node =
  role_value :: "jstring option"
  name_value :: "jstring option"
  backendDOMNodeId :: "int option"
  nodeId :: "jstring option"

datatype frame_tree = FrameTree (ft_id: "jstring option") (childFrames: "frame_tree list")

datatype js_value = VString jstring | VObject result

record reply =
  model :: "box_model option"
  nodes :: "ax_node list option"
  root_nodeId :: "int option"
  object_objectId :: "jstring option"
  result_value :: "js_value option"
  frameTree :: "frame_tree option"
  executionContextId :: "int option"

definition empty_reply :: reply where
  "empty_reply = \<lparr>model = None, nodes = None, root_nodeId = None, object_objectId = None,
                   result_value = None, frameTree = None, executionContextId = None\<rparr>"

definition box_reply :: "double list \<Rightarrow> reply" where
  "box_reply q = empty_reply\<lparr>model := Some \<lparr>content = Some q, border = None, margin = None\<rparr>\<rparr>"

subsection \<open>The call function as an oracle, and sequencing\<close>

text \<open>
  \<open>env_call\<close> is the oracle, \<open>env_now\<close> is \<open>Date.now()\<close> and \<open>env_sleep\<close> is the
  passing of a \<open>setTimeout\<close> delay. \<open>AX_NAME\<close> and \<open>AX_ROLE\<close> are the configured
  name and role; \<open>MAX_TOTAL_MS\<close> is \<open>None\<close> when \<open>parseInt\<close> of the environment
  variable is \<open>NaN\<close>, which no number exceeds. The state of a strategy is the world
  and the list of exchanges so far, each a request with its answer. A computation
  returns \<open>Inl\<close> of what was thrown or \<open>Inr\<close> of its value; \<open>bnd\<close> is sequencing
  of awaited steps and \<open>try_catch m h\<close> is \<open>try { m } catch { h }\<close>.
\<close>

type_synonym exn = string

record 'w env =
  env_call :: "request \<Rightarrow> 'w \<Rightarrow> (exn + reply) \<times> 'w"
  env_now :: "'w \<Rightarrow> int"
  env_sleep :: "int \<Rightarrow> 'w \<Rightarrow> 'w"

record cfg =
  AX_NAME :: jstring
  AX_ROLE :: jstring
  MAX_TOTAL_MS :: "int option"

record 'w st =
  world :: 'w
  exchanges :: "(request \<times> (exn + reply)) list"

type_synonym ('a, 'w) prog = "'w st \<Rightarrow> (exn + 'a) \<times> 'w st"

definition ret :: "'a \<Rightarrow> ('a, 'w) prog" where
  "ret v s = (Inr v, s)"

definition throw :: "exn \<Rightarrow> ('a, 'w) prog" where
  "throw e s = (Inl e, s)"

definition bnd :: "('a, 'w) prog \<Rightarrow> ('a \<Rightarrow> ('b, 'w) prog) \<Rightarrow> ('b, 'w) prog" where
  "bnd m f s = (case m s of (Inl e, s') \<Rightarrow> (Inl e, s') | (Inr v, s') \<Rightarrow> f v s')"

definition try_catch :: "('a, 'w) prog \<Rightarrow> ('a, 'w) prog \<Rightarrow> ('a, 'w) prog" where
  "try_catch m h s = (case m s of (Inl e, s') \<Rightarrow> h s' | (Inr v, s') \<Rightarrow> (Inr v, s'))"

definition call :: "'w env \<Rightarrow> request \<Rightarrow> (reply, 'w) prog" where
  "call env req s =
     (case env_call env req (world s) of (r, w') \<Rightarrow> (r, \<lparr>world = w', exchanges = exchanges s @ [(req, r)]\<rparr>))"

definition truthy_int :: "int option \<Rightarrow> bool" where
  "truthy_int v = (case v of None \<Rightarrow> False | Some n \<Rightarrow> n \<noteq> 0)"

definition truthy_str :: "jstring option \<Rightarrow> bool" where
  "truthy_str v = (case v of None \<Rightarrow> False | Some s \<Rightarrow> s \<noteq> [])"

definition or_empty :: "jstring option \<Rightarrow> jstring" where
  "or_empty v = (case v of None \<Rightarrow> [] | Some s \<Rightarrow> s)"

subsection \<open>pickNode (lines 154-176)\<close>

text \<open>
  \<open>quad_of\<close> is \<open>content || border || margin\<close>: an array is truthy, also when empty,
  so the first one present is taken. \<open>quad_width\<close> is
  \<open>Math.max(0, maxX - minX)\<close> with \<open>minX\<close> and \<open>maxX\<close> the \<open>Math.min\<close> and
  \<open>Math.max\<close> of \<open>q[0], q[2], q[4], q[6]\<close>, and \<open>quad_cx\<close> is
  \<open>(q[0] + q[2] + q[4] + q[6]) / 4\<close>, all in the arithmetic of doubles; the height
  and \<open>quad_cy\<close> read the odd indices. \<open>pick_step\<close> is the body of the loop after the
  box model has arrived; \<open>pick_loop\<close> is the loop with \<open>best\<close> as accumulator, and a
  rejected \<open>DOM.getBoxModel\<close> leaves it as an exception.
\<close>

record best =
  best_bid :: int
  best_cx :: double
  best_cy :: double
  best_area :: double

record picked =
  bid :: int
  cx :: double
  cy :: double

definition quad_of :: "reply \<Rightarrow> double list option" where
  "quad_of bm =
     (case model bm of
        None \<Rightarrow> None
      | Some m \<Rightarrow>
          (case content m of
             Some q \<Rightarrow> Some q
           | None \<Rightarrow> (case border m of Some q \<Rightarrow> Some q | None \<Rightarrow> margin m)))"

definition quad_width :: "double list \<Rightarrow> double" where
  "quad_width q =
     Math_max [Finite 0, js_sub (Math_max [q ! 0, q ! 2, q ! 4, q ! 6])
                                (Math_min [q ! 0, q ! 2, q ! 4, q ! 6])]"

definition quad_height :: "double list \<Rightarrow> double" where
  "quad_height q =
     Math_max [Finite 0, js_sub (Math_max [q ! 1, q ! 3, q ! 5, q ! 7])
                                (Math_min [q ! 1, q ! 3, q ! 5, q ! 7])]"

definition quad_cx :: "double list \<Rightarrow> double" where
  "quad_cx q = js_div (js_add (js_add (js_add (q ! 0) (q ! 2)) (q ! 4)) (q ! 6)) (Finite 4)"

definition quad_cy :: "double list \<Rightarrow> double" where
  "quad_cy q = js_div (js_add (js_add (js_add (q ! 1) (q ! 3)) (q ! 5)) (q ! 7)) (Finite 4)"

definition pick_step :: "best option \<Rightarrow> int \<Rightarrow> reply \<Rightarrow> best option" where
  "pick_step b i bm =
     (case quad_of bm of
        None \<Rightarrow> b
      | Some q \<Rightarrow>
          if length q < 8 then b
          else if js_lt (quad_width q) (Finite 1) \<or> js_lt (quad_height q) (Finite 1) then b
          else (let area = js_mul (quad_width q) (quad_height q)
                in if (case b of None \<Rightarrow> True | Some old \<Rightarrow> js_gt area (best_area old))
                   then Some \<lparr>best_bid = i, best_cx = quad_cx q, best_cy = quad_cy q,
                               best_area = area\<rparr>
                   else b))"

fun pick_loop :: "'w env \<Rightarrow> int list \<Rightarrow> best option \<Rightarrow> (best option, 'w) prog" where
  "pick_loop env [] b = ret b"
| "pick_loop env (i # rest) b =
     bnd (call env (DOM_getBoxModel i)) (\<lambda>bm. pick_loop env rest (pick_step b i bm))"

definition pickNode :: "'w env \<Rightarrow> int list \<Rightarrow> (picked option, 'w) prog" where
  "pickNode env backendIds =
     bnd (pick_loop env backendIds None)
       (\<lambda>b. ret (case b of
                  None \<Rightarrow> None
                | Some v \<Rightarrow> Some \<lparr>bid = best_bid v, cx = Math_round (best_cx v),
                                  cy = Math_round (best_cy v)\<rparr>))"

subsection \<open>clickByAX (lines 178-208)\<close>

text \<open>
  \<open>ax_bids\<close> is the filter over the nodes of the tree followed by
  \<open>cands.map(x => x.bid).filter(Boolean)\<close>. \<open>clickByAX_native\<close> is the body of the
  \<open>try\<close> block: it yields \<open>Some\<close> of the result the block returns, or \<open>None\<close>
  when control leaves the block at its end. \<open>val.includes\<close> throws a \<open>TypeError\<close>
  when the value is an object; \<open>text_value\<close> is \<open>val\<close> or that error.
  \<open>clickByAX_picked\<close> is the function from \<open>try\<close> to its last \<open>return\<close>, for the
  picked node: the two \<open>Input.dispatchMouseEvent\<close> calls stand outside the \<open>try\<close>.
\<close>

definition dispatch_click :: "'w env \<Rightarrow> double \<Rightarrow> double \<Rightarrow> (unit, 'w) prog" where
  "dispatch_click env px py =
     bnd (call env (Input_dispatchMouseEvent MousePressed px py))
       (\<lambda>_. bnd (call env (Input_dispatchMouseEvent MouseReleased px py)) (\<lambda>_. ret ()))"

definition click_result :: "picked \<Rightarrow> string \<Rightarrow> result" where
  "click_result p how =
     \<lparr>ok = True, backendNodeId = Some (bid p), x_pos = Some (cx p), y_pos = Some (cy p),
      via = Some how\<rparr>"

definition ax_bids :: "cfg \<Rightarrow> ax_node list \<Rightarrow> int list" where
  "ax_bids c ns =
     map (\<lambda>n. case backendDOMNodeId n of Some b \<Rightarrow> b | None \<Rightarrow> 0)
       (filter (\<lambda>n. truthy_int (backendDOMNodeId n))
          (filter (\<lambda>n. (truthy_int (backendDOMNodeId n) \<or> truthy_str (nodeId n)) \<and>
                        or_empty (name_value n) \<noteq> [] \<and>
                        js_includes (or_empty (name_value n)) (AX_NAME c) \<and>
                        or_empty (role_value n) = AX_ROLE c) ns))"

definition text_value :: "reply \<Rightarrow> exn + jstring" where
  "text_value txt =
     (case result_value txt of
        None \<Rightarrow> Inr []
      | Some (VString t) \<Rightarrow> Inr t
      | Some (VObject v) \<Rightarrow> Inl ''TypeError: val.includes is not a function'')"

definition clickByAX_native :: "cfg \<Rightarrow> 'w env \<Rightarrow> picked \<Rightarrow> (result option, 'w) prog" where
  "clickByAX_native c env p =
     bnd (call env (DOM_resolveNode (bid p)))
       (\<lambda>rn. if truthy_str (object_objectId rn)
             then bnd (call env (Runtime_callFunctionOn (or_empty (object_objectId rn)) ReadText))
                    (\<lambda>txt. case text_value txt of
                             Inl e \<Rightarrow> throw e
                           | Inr val \<Rightarrow>
                               if js_includes val (AX_NAME c)
                               then bnd (call env (Runtime_callFunctionOn
                                                     (or_empty (object_objectId rn)) ScrollAndClick))
                                      (\<lambda>_. ret (Some (click_result p ''callFunctionOn'')))
                               else ret None)
             else ret None)"

definition clickByAX_picked :: "cfg \<Rightarrow> 'w env \<Rightarrow> picked \<Rightarrow> (result, 'w) prog" where
  "clickByAX_picked c env p =
     bnd (try_catch (clickByAX_native c env p) (ret None))
       (\<lambda>r. case r of
               Some v \<Rightarrow> ret v
             | None \<Rightarrow>
                 bnd (dispatch_click env (cx p) (cy p))
                   (\<lambda>_. ret (click_result p ''dispatchMouseEvent'')))"

definition clickByAX :: "cfg \<Rightarrow> 'w env \<Rightarrow> (result, 'w) prog" where
  "clickByAX c env =
     bnd (call env Accessibility_getFullAXTree)
       (\<lambda>ax. bnd (if ax_bids c (case nodes ax of Some ns \<Rightarrow> ns | None \<Rightarrow> []) \<noteq> []
                   then pickNode env (ax_bids c (case nodes ax of Some ns \<Rightarrow> ns | None \<Rightarrow> []))
                   else ret None)
               (\<lambda>pk. case pk of
                        None \<Rightarrow> ret fail_result
                      | Some p \<Rightarrow> clickByAX_picked c env p))"

subsection \<open>clickByDOM and clickByFrames (lines 210-238)\<close>

text \<open>
  \<open>collect_frames\<close> is the \<open>while (stack.length)\<close> loop: pop the last node, record
  its frame id when truthy, push its children. \<open>frames_loop\<close> is the \<open>for\<close> loop over
  the recorded ids; the \<open>try\<close> around each frame swallows what its two calls throw.
\<close>

definition clickByDOM :: "cfg \<Rightarrow> 'w env \<Rightarrow> (result, 'w) prog" where
  "clickByDOM c env =
     bnd (call env (Runtime_evaluate ClickExprRuntime None))
       (\<lambda>r. case result_value r of
               Some (VObject v) \<Rightarrow> if ok v then ret v else ret fail_result
             | _ \<Rightarrow> ret fail_result)"

function collect_frames :: "frame_tree list \<Rightarrow> jstring list \<Rightarrow> jstring list" where
  "collect_frames stack frames =
     (if stack = [] then frames
      else collect_frames (butlast stack @ childFrames (last stack))
             (if truthy_str (ft_id (last stack)) then frames @ [or_empty (ft_id (last stack))]
              else frames))"
  by pat_completeness auto
termination
proof (relation "measure (\<lambda>(stack, frames). size_list size stack)")
  show "wf (measure (\<lambda>(stack, frames). size_list size stack))" by simp
next
  fix stack :: "frame_tree list" and frames :: "jstring list"
  assume ne: "stack \<noteq> []"
  then have split: "stack = butlast stack @ [last stack]" by simp
  have "size_list size (butlast stack @ childFrames (last stack))
          < size_list size (butlast stack @ [last stack])"
    by (cases "last stack") simp
  with split show "((butlast stack @ childFrames (last stack),
           if truthy_str (ft_id (last stack)) then frames @ [or_empty (ft_id (last stack))]
           else frames), stack, frames) \<in> measure (\<lambda>(stack, frames). size_list size stack)"
    by simp
qed

definition frame_try :: "'w env \<Rightarrow> jstring \<Rightarrow> (result option, 'w) prog" where
  "frame_try env fid =
     bnd (call env (Page_createIsolatedWorld fid))
       (\<lambda>iw. bnd (call env (Runtime_evaluate ClickExprFrame (executionContextId iw)))
               (\<lambda>rv. ret (case result_value rv of
                             Some (VObject v) \<Rightarrow> if ok v then Some v else None
                           | _ \<Rightarrow> None)))"

fun frames_loop :: "'w env \<Rightarrow> jstring list \<Rightarrow> (result, 'w) prog" where
  "frames_loop env [] = ret fail_result"
| "frames_loop env (fid # rest) =
     bnd (try_catch (frame_try env fid) (ret None))
       (\<lambda>r. case r of Some v \<Rightarrow> ret v | None \<Rightarrow> frames_loop env rest)"

definition clickByFrames :: "cfg \<Rightarrow> 'w env \<Rightarrow> (result, 'w) prog" where
  "clickByFrames c env =
     bnd (call env Page_getFrameTree)
       (\<lambda>ft. frames_loop env
               (collect_frames (case frameTree ft of Some t \<Rightarrow> [t] | None \<Rightarrow> []) []))"

subsection \<open>clickByAXQuery (lines 240-266)\<close>

definition axq_bids :: "cfg \<Rightarrow> ax_node list \<Rightarrow> int list" where
  "axq_bids c ns =
     map (\<lambda>n. case backendDOMNodeId n of Some b \<Rightarrow> b | None \<Rightarrow> 0)
       (filter (\<lambda>n. truthy_int (backendDOMNodeId n))
          (filter (\<lambda>n. or_empty (role_value n) = AX_ROLE c) ns))"

definition clickByAXQuery_native :: "'w env \<Rightarrow> picked \<Rightarrow> (result option, 'w) prog" where
  "clickByAXQuery_native env p =
     bnd (call env (DOM_resolveNode (bid p)))
       (\<lambda>rn. if truthy_str (object_objectId rn)
             then bnd (call env (Runtime_callFunctionOn (or_empty (object_objectId rn))
                                   ScrollAndClick))
                    (\<lambda>_. ret (Some (click_result p ''axQuery'')))
             else ret None)"

definition clickByAXQuery_body :: "cfg \<Rightarrow> 'w env \<Rightarrow> int \<Rightarrow> (result, 'w) prog" where
  "clickByAXQuery_body c env nid =
     bnd (call env (Accessibility_queryAXTree nid))
       (\<lambda>q. if axq_bids c (case nodes q of Some ns \<Rightarrow> ns | None \<Rightarrow> []) = []
            then ret fail_result
            else bnd (pickNode env (axq_bids c (case nodes q of Some ns \<Rightarrow> ns | None \<Rightarrow> [])))
                   (\<lambda>pk. case pk of
                            None \<Rightarrow> ret fail_result
                          | Some p \<Rightarrow>
                              bnd (try_catch (clickByAXQuery_native env p) (ret None))
                                (\<lambda>r. case r of
                                        Some v \<Rightarrow> ret v
                                      | None \<Rightarrow>
                                          bnd (dispatch_click env (cx p) (cy p))
                                            (\<lambda>_. ret (click_result p ''axQueryDispatch'')))))"

definition clickByAXQuery :: "cfg \<Rightarrow> 'w env \<Rightarrow> (result, 'w) prog" where
  "clickByAXQuery c env =
     bnd (call env DOM_getDocument)
       (\<lambda>doc. if \<not> truthy_int (root_nodeId doc) then ret fail_result
              else try_catch
                     (clickByAXQuery_body c env
                        (case root_nodeId doc of Some n \<Rightarrow> n | None \<Rightarrow> 0))
                     (ret fail_result))"

subsection \<open>verifyNewChat (lines 268-284) and main (lines 342-370)\<close>

text \<open>
  \<open>verifyNewChat\<close> returns \<open>r?.result?.result?.value || { ok:false }\<close>.
  \<open>attempt_chain\<close> is lines 348-351. \<open>main\<close> is modelled from line 342 on; its state
  adds what the script itself observes and prints: every value read from the clock and
  every line logged (\<open>Attempt n\<close> is the line \<open>Attempt n/5\<close>). The strategies cannot
  touch that part of the state. \<open>retry_loop\<close> is the \<open>for\<close> loop, with the loop
  variable \<open>attempt\<close> and \<open>r\<close> as arguments; \<open>main_verify\<close> is lines 359-363 and
  \<open>main_fallback\<close> lines 365-370.
\<close>

definition js_truthy :: "js_value \<Rightarrow> bool" where
  "js_truthy v = (case v of VString s \<Rightarrow> s \<noteq> [] | VObject r \<Rightarrow> True)"

definition verifyNewChat :: "'w env \<Rightarrow> (js_value, 'w) prog" where
  "verifyNewChat env =
     bnd (call env (Runtime_evaluate VerifyExpr None))
       (\<lambda>r. ret (case result_value r of
                   Some v \<Rightarrow> if js_truthy v then v else VObject fail_result
                 | None \<Rightarrow> VObject fail_result))"

definition attempt_chain :: "cfg \<Rightarrow> 'w env \<Rightarrow> (result, 'w) prog" where
  "attempt_chain c env =
     bnd (clickByAXQuery c env)
       (\<lambda>r1. bnd (if \<not> ok r1 then clickByAX c env else ret r1)
          (\<lambda>r2. bnd (if \<not> ok r2 then clickByDOM c env else ret r2)
             (\<lambda>r3. if \<not> ok r3 then clickByFrames c env else ret r3)))"

datatype console_line =
    ClickAttempting
  | Attempt nat
  | TimeoutReached
  | Verifying
  | UsingFallback
  | Result result

datatype main_event = Clock int | Console console_line

record 'w mst =
  inner :: "'w st"
  trace :: "main_event list"

definition lift :: "('a, 'w) prog \<Rightarrow> 'w mst \<Rightarrow> (exn + 'a) \<times> 'w mst" where
  "lift m s = (case m (inner s) of (r, i) \<Rightarrow> (r, s\<lparr>inner := i\<rparr>))"

definition console_log :: "console_line \<Rightarrow> 'w mst \<Rightarrow> 'w mst" where
  "console_log l s = s\<lparr>trace := trace s @ [Console l]\<rparr>"

definition date_now :: "'w env \<Rightarrow> 'w mst \<Rightarrow> int \<times> 'w mst" where
  "date_now env s =
     (env_now env (world (inner s)),
      s\<lparr>trace := trace s @ [Clock (env_now env (world (inner s)))]\<rparr>)"

definition sleep :: "'w env \<Rightarrow> int \<Rightarrow> 'w mst \<Rightarrow> 'w mst" where
  "sleep env ms s = s\<lparr>inner := (inner s)\<lparr>world := env_sleep env ms (world (inner s))\<rparr>\<rparr>"

definition deadline_passed :: "int \<Rightarrow> int \<Rightarrow> int option \<Rightarrow> bool" where
  "deadline_passed now start max_ms =
     (case max_ms of None \<Rightarrow> False | Some m \<Rightarrow> now - start > m)"

function retry_loop ::
  "cfg \<Rightarrow> 'w env \<Rightarrow> int \<Rightarrow> nat \<Rightarrow> result \<Rightarrow> 'w mst \<Rightarrow> (exn + result) \<times> 'w mst" where
  "retry_loop c env start attempt r s =
     (if attempt < 5 \<and> \<not> ok r
      then (case lift (attempt_chain c env) (console_log (Attempt (attempt + 1)) s) of
              (Inl e, s1) \<Rightarrow> (Inl e, s1)
            | (Inr r1, s1) \<Rightarrow>
                (case date_now env (if \<not> ok r1 then sleep env 500 s1 else s1) of
                   (now, s2) \<Rightarrow>
                     if deadline_passed now start (MAX_TOTAL_MS c)
                     then (Inr r1, console_log TimeoutReached s2)
                     else retry_loop c env start (attempt + 1) r1 s2))
      else (Inr r, s))"
  by pat_completeness auto
termination
  by (relation "measure (\<lambda>(c, env, start, attempt, r, s). 5 - attempt)") auto

definition main_loop :: "cfg \<Rightarrow> 'w env \<Rightarrow> 'w mst \<Rightarrow> (exn + result) \<times> 'w mst" where
  "main_loop c env s =
     (case date_now env s of
        (start, s1) \<Rightarrow> retry_loop c env start 0 fail_result (console_log ClickAttempting s1))"

definition main_verify :: "'w env \<Rightarrow> result \<Rightarrow> 'w mst \<Rightarrow> (exn + result) \<times> 'w mst" where
  "main_verify env r s =
     (if \<not> ok r
      then (case lift (verifyNewChat env) (console_log Verifying s) of
              (Inl e, s1) \<Rightarrow> (Inl e, s1)
            | (Inr v, s1) \<Rightarrow>
                (Inr (case v of VObject obj \<Rightarrow> if ok obj then obj else r | VString t \<Rightarrow> r), s1))
      else (Inr r, s))"

definition fallback_guard :: "result \<Rightarrow> bool" where
  "fallback_guard r \<longleftrightarrow> \<not> ok r \<and> x_pos r \<noteq> None \<and> y_pos r \<noteq> None"

definition main_fallback :: "'w env \<Rightarrow> result \<Rightarrow> 'w mst \<Rightarrow> (exn + result) \<times> 'w mst" where
  "main_fallback env r s =
     (if fallback_guard r
      then (case lift (dispatch_click env (case x_pos r of Some v \<Rightarrow> v | None \<Rightarrow> Finite 0)
                         (case y_pos r of Some v \<Rightarrow> v | None \<Rightarrow> Finite 0))
                   (console_log UsingFallback s) of
              (Inl e, s1) \<Rightarrow> (Inl e, s1)
            | (Inr u, s1) \<Rightarrow>
                (Inr \<lparr>ok = True, backendNodeId = None, x_pos = x_pos r, y_pos = y_pos r,
                      via = Some ''fallback''\<rparr>, s1))
      else (Inr r, s))"

definition main_click :: "cfg \<Rightarrow> 'w env \<Rightarrow> 'w mst \<Rightarrow> (exn + result) \<times> 'w mst" where
  "main_click c env s =
     (case main_loop c env s of
        (Inl e, s1) \<Rightarrow> (Inl e, s1)
      | (Inr r, s1) \<Rightarrow>
          (case main_verify env r s1 of
             (Inl e, s2) \<Rightarrow> (Inl e, s2)
           | (Inr r2, s2) \<Rightarrow>
               (case main_fallback env r2 s2 of
                  (Inl e, s3) \<Rightarrow> (Inl e, s3)
                | (Inr r3, s3) \<Rightarrow> (Inr r3, console_log (Result r3) s3))))"

section \<open>The scripts evaluated in the page\<close>

text \<open>
  \<open>verifyNewChat\<close> (opener, lines 269-281) and \<open>injection\<close> (injector, lines 66-119)
  build a script that runs inside the page. The document is an oracle as well: what
  \<open>querySelector\<close> finds and what an element's properties are depends on the page,
  and \<open>react\<close> is what the page does when the script focuses an element, writes a
  property or dispatches an event. Reading is taken to change nothing. The state of a
  script is the page and the list of effects the script has caused. Selectors are the
  fixed strings of the two scripts, named by constructors (\<open>fasong\<close> and \<open>tijiao\<close> are
  the Chinese words for send and submit). \<open>toLowerCase\<close> maps ASCII letters only,
  which decides the comparisons with \<open>textarea\<close> and \<open>input\<close> and the matching of the
  case-insensitive pattern; \<open>is_space\<close> is the white space \<open>trim\<close> removes.
\<close>

type_synonym elem = nat

datatype selector =
    Sel_textarea
  | Sel_contenteditable_true
  | Sel_role_textbox
  | Sel_input_type_text
  | Sel_ProseMirror
  | Sel_div_aria_label
  | Sel_div_placeholder
  | Sel_data_slate_editor
  | Sel_data_testid_editor
  | Sel_data_lexical_editor
  | Btn_button_type_submit
  | Btn_button_aria_label_fasong
  | Btn_button_aria_label_Send
  | Btn_role_button_aria_label_fasong
  | Btn_role_button_aria_label_Send
  | Btn_data_testid_send
  | Btn_aria_label_tijiao
  | Btn_aria_label_Submit

datatype js_prop = Undefined | StringValue jstring | OtherValue

datatype event_name = Ev_input | Ev_change

datatype key_event = Keydown_Enter | Keyup_Enter

datatype mouse_name = Pointerdown | Mousedown | Click | Mouseup

datatype dom_effect =
    Focus elem
  | SetValue elem jstring
  | DeleteContents elem
  | SetTextContent elem jstring
  | DispatchInputEvent elem jstring
  | DispatchEvent elem event_name
  | DispatchKey elem key_event
  | DispatchMouse elem mouse_name

record 'p dom =
  querySelector :: "selector \<Rightarrow> 'p \<Rightarrow> elem option"
  querySelectorIn :: "elem \<Rightarrow> selector \<Rightarrow> 'p \<Rightarrow> elem option"
  closest_form :: "elem \<Rightarrow> 'p \<Rightarrow> elem option"
  parentElement :: "elem \<Rightarrow> 'p \<Rightarrow> elem option"
  activeElement :: "'p \<Rightarrow> elem option"
  tagName :: "elem \<Rightarrow> 'p \<Rightarrow> jstring"
  type_prop :: "elem \<Rightarrow> 'p \<Rightarrow> jstring option"
  isContentEditable :: "elem \<Rightarrow> 'p \<Rightarrow> bool"
  value_prop :: "elem \<Rightarrow> 'p \<Rightarrow> js_prop"
  textContent :: "elem \<Rightarrow> 'p \<Rightarrow> jstring"
  placeholder_attr :: "elem \<Rightarrow> 'p \<Rightarrow> jstring option"
  has_InputEvent :: bool
  react :: "dom_effect \<Rightarrow> 'p \<Rightarrow> 'p"

record 'p script_state =
  page :: 'p
  effects :: "dom_effect list"

definition perform :: "'p dom \<Rightarrow> dom_effect \<Rightarrow> 'p script_state \<Rightarrow> 'p script_state" where
  "perform d eff s = \<lparr>page = react d eff (page s), effects = effects s @ [eff]\<rparr>"

definition lower_unit :: "nat \<Rightarrow> nat" where
  "lower_unit u = (if 65 \<le> u \<and> u \<le> 90 then u + 32 else u)"

definition toLowerCase :: "jstring \<Rightarrow> jstring" where
  "toLowerCase t = map lower_unit t"

definition is_space :: "nat \<Rightarrow> bool" where
  "is_space u \<longleftrightarrow>
     u \<in> set [9, 10, 11, 12, 13, 32, 160, 5760, 8232, 8233, 8239, 8287, 12288, 65279]
     \<or> (8192 \<le> u \<and> u \<le> 8202)"

definition trim_is_empty :: "jstring \<Rightarrow> bool" where
  "trim_is_empty t \<longleftrightarrow> list_all is_space t"

definition ph_alternatives :: "jstring list" where
  "ph_alternatives =
     [[36755, 20837], [28040, 24687], ascii ''message'', ascii ''chat'', ascii ''send'']"

definition phMatch :: "jstring \<Rightarrow> bool" where
  "phMatch ph \<longleftrightarrow> list_ex (\<lambda>alt. js_includes (toLowerCase ph) alt) ph_alternatives"

fun find_first :: "'p dom \<Rightarrow> selector list \<Rightarrow> 'p \<Rightarrow> (elem \<times> selector) option" where
  "find_first d [] pg = None"
| "find_first d (q # qs) pg =
     (case querySelector d q pg of Some e \<Rightarrow> Some (e, q) | None \<Rightarrow> find_first d qs pg)"

datatype 'a script_outcome = Value 'a | Threw

text \<open>
  The verification expression. \<open>.trim()\<close> on a \<open>value\<close> that is neither undefined
  nor a string throws; the reply to \<open>Runtime.evaluate\<close> then carries no value
  (\<open>evaluate_reply\<close>). \<open>browser_env\<close> is a browser that answers the verification
  request by running the expression on its page.
\<close>

definition verify_selectors :: "selector list" where
  "verify_selectors =
     [Sel_textarea, Sel_contenteditable_true, Sel_role_textbox, Sel_input_type_text,
      Sel_ProseMirror]"

definition is_text_control :: "'p dom \<Rightarrow> elem \<Rightarrow> 'p \<Rightarrow> bool" where
  "is_text_control d el pg \<longleftrightarrow>
     toLowerCase (tagName d el pg) = ascii ''textarea'' \<or>
     (toLowerCase (tagName d el pg) = ascii ''input'' \<and> type_prop d el pg = Some (ascii ''text''))"

definition verify_expr ::
  "'p dom \<Rightarrow> 'p script_state \<Rightarrow> result script_outcome \<times> 'p script_state" where
  "verify_expr d s =
     (case find_first d verify_selectors (page s) of
        None \<Rightarrow> (Value fail_result, s)
      | Some (el, q) \<Rightarrow>
          (case (case value_prop d el (page s) of
                   Undefined \<Rightarrow> Some (textContent d el (page s))
                 | StringValue v \<Rightarrow> Some v
                 | OtherValue \<Rightarrow> None) of
             None \<Rightarrow> (Threw, s)
           | Some val \<Rightarrow>
               if (is_text_control d el (page s) \<or> isContentEditable d el (page s))
                  \<and> trim_is_empty val
                  \<and> phMatch (or_empty (placeholder_attr d el (page s)))
               then (Value \<lparr>ok = True, backendNodeId = None, x_pos = None, y_pos = None,
                            via = Some ''verify''\<rparr>, s)
               else (Value fail_result, s)))"

definition evaluate_reply :: "result script_outcome \<Rightarrow> reply" where
  "evaluate_reply out =
     empty_reply\<lparr>result_value := (case out of Value r \<Rightarrow> Some (VObject r) | Threw \<Rightarrow> None)\<rparr>"

definition browser_env :: "'p dom \<Rightarrow> ('p script_state) env" where
  "browser_env d =
     \<lparr>env_call = (\<lambda>req w.
         case req of
           Runtime_evaluate VerifyExpr ctx \<Rightarrow>
             (Inr (evaluate_reply (fst (verify_expr d w))), snd (verify_expr d w))
         | _ \<Rightarrow> (Inr empty_reply, w)),
       env_now = (\<lambda>w. 0), env_sleep = (\<lambda>ms w. w)\<rparr>"

text \<open>
  The injected script. Lines 91-92 dispatch \<open>keydown\<close> and \<open>keyup\<close> of Enter on the
  input element; \<open>submit\<close> is lines 93-116, the search for a button and the two ways
  of submitting.
\<close>

definition input_selectors :: "selector list" where
  "input_selectors =
     [Sel_textarea, Sel_contenteditable_true, Sel_role_textbox, Sel_input_type_text,
      Sel_ProseMirror, Sel_div_aria_label, Sel_div_placeholder, Sel_data_slate_editor,
      Sel_data_testid_editor, Sel_data_lexical_editor]"

definition button_selectors :: "selector list" where
  "button_selectors =
     [Btn_button_type_submit, Btn_button_aria_label_fasong, Btn_button_aria_label_Send,
      Btn_role_button_aria_label_fasong, Btn_role_button_aria_label_Send, Btn_data_testid_send,
      Btn_aria_label_tijiao, Btn_aria_label_Submit]"

fun find_button :: "'p dom \<Rightarrow> elem option \<Rightarrow> selector list \<Rightarrow> 'p \<Rightarrow> elem option" where
  "find_button d container [] pg = None"
| "find_button d container (q # qs) pg =
     (case (case container of
              Some ce \<Rightarrow> querySelectorIn d ce q pg
            | None \<Rightarrow> querySelector d q pg) of
        Some b \<Rightarrow> Some b
      | None \<Rightarrow>
          (case querySelector d q pg of
             Some b \<Rightarrow> Some b
           | None \<Rightarrow> find_button d container qs pg))"

datatype inj_result = NoInput | Injected selector jstring bool

definition perform_all :: "'p dom \<Rightarrow> dom_effect list \<Rightarrow> 'p script_state \<Rightarrow> 'p script_state" where
  "perform_all d effs s = fold (perform d) effs s"

definition enter_text :: "'p dom \<Rightarrow> elem \<Rightarrow> jstring \<Rightarrow> jstring \<Rightarrow> 'p script_state \<Rightarrow> 'p script_state" where
  "enter_text d el tag text s =
     (if tag = ascii ''textarea'' \<or> (tag = ascii ''input'' \<and> type_prop d el (page s) = Some (ascii ''text''))
      then perform_all d
             ([SetValue el text] @ (if has_InputEvent d then [DispatchInputEvent el text] else [])
              @ [DispatchEvent el Ev_input, DispatchEvent el Ev_change]) s
      else if isContentEditable d el (page s)
      then perform_all d
             ([DeleteContents el, SetTextContent el text]
              @ (if has_InputEvent d then [DispatchInputEvent el text] else [])
              @ [DispatchEvent el Ev_input]) s
      else perform_all d [SetTextContent el text, DispatchEvent el Ev_input] s)"

definition submit :: "'p dom \<Rightarrow> elem \<Rightarrow> 'p script_state \<Rightarrow> 'p script_state" where
  "submit d el s =
     (case find_button d
             (case closest_form d el (page s) of
                Some f \<Rightarrow> Some f
              | None \<Rightarrow> parentElement d el (page s))
             button_selectors (page s) of
        Some btn \<Rightarrow>
          perform_all d [DispatchMouse btn Pointerdown, DispatchMouse btn Mousedown,
                         DispatchMouse btn Click, DispatchMouse btn Mouseup] s
      | None \<Rightarrow>
          perform_all d
            [DispatchKey (case activeElement d (page s) of Some a \<Rightarrow> a | None \<Rightarrow> el) Keydown_Enter,
             DispatchKey (case activeElement d (page s) of Some a \<Rightarrow> a | None \<Rightarrow> el) Keyup_Enter] s)"

definition injection :: "'p dom \<Rightarrow> jstring \<Rightarrow> 'p script_state \<Rightarrow> inj_result \<times> 'p script_state" where
  "injection d text s =
     (case find_first d input_selectors (page s) of
        None \<Rightarrow> (NoInput, s)
      | Some (el, used) \<Rightarrow>
          (let tag = toLowerCase (tagName d el (page s));
               s1 = perform d (Focus el) s;
               s2 = enter_text d el tag text s1;
               s3 = perform d (DispatchKey el Keydown_Enter) s2;
               s4 = perform d (DispatchKey el Keyup_Enter) s3;
               s5 = submit d el s4
           in (Injected used (tagName d el (page s5)) (isContentEditable d el (page s5)), s5)))"

section \<open>Vocabulary of the statements\<close>




definition finite_quad :: "double list \<Rightarrow> bool" where
  "finite_quad q = list_all is_finite (take 8 q)"











text \<open>
  \<open>returns m Q\<close>: whatever \<open>m\<close> returns satisfies \<open>Q\<close>. \<open>all_fail fs s\<close> runs the
  strategies \<open>fs\<close> one after the other from \<open>s\<close>, each once, and is the state they
  leave if each returned a failure result. \<open>deadline_respected\<close>: no attempt starts
  after a clock reading later than \<open>start + m\<close>; \<open>attempts_checked\<close>: an attempt line
  is followed by a clock reading unless it is the last event (the attempt threw).
\<close>

definition returns :: "('a, 'w) prog \<Rightarrow> ('a \<Rightarrow> bool) \<Rightarrow> bool" where
  "returns m Q \<longleftrightarrow> (\<forall>s r s'. m s = (Inr r, s') \<longrightarrow> Q r)"

definition ok_or_plain_failure :: "result \<Rightarrow> bool" where
  "ok_or_plain_failure r \<longleftrightarrow> ok r \<or> r = fail_result"

fun all_fail :: "('w st \<Rightarrow> (exn + result) \<times> 'w st) list \<Rightarrow> 'w st \<Rightarrow> 'w st option" where
  "all_fail [] s = Some s"
| "all_fail (f # fs) s =
     (case f s of
        (Inl e, s') \<Rightarrow> None
      | (Inr r, s') \<Rightarrow> if ok r then None else all_fail fs s')"

definition strategies :: "cfg \<Rightarrow> 'w env \<Rightarrow> ('w st \<Rightarrow> (exn + result) \<times> 'w st) list" where
  "strategies c env = [clickByAXQuery c env, clickByAX c env, clickByDOM c env, clickByFrames c env]"

definition stops_chain :: "(exn + result) \<times> 'w st \<Rightarrow> bool" where
  "stops_chain out = (case fst out of Inl e \<Rightarrow> True | Inr r \<Rightarrow> ok r)"

fun is_attempt :: "main_event \<Rightarrow> bool" where
  "is_attempt (Console (Attempt n)) = True"
| "is_attempt e = False"

fun deadline_respected :: "int \<Rightarrow> int \<Rightarrow> main_event list \<Rightarrow> bool" where
  "deadline_respected start m [] = True"
| "deadline_respected start m (Clock t # es) =
     (if t - start > m then list_all (\<lambda>e. \<not> is_attempt e) es
      else deadline_respected start m es)"
| "deadline_respected start m (Console l # es) = deadline_respected start m es"

fun attempts_checked :: "main_event list \<Rightarrow> bool" where
  "attempts_checked (Console (Attempt n) # e # es) =
     ((case e of Clock t \<Rightarrow> True | Console l \<Rightarrow> False) \<and> attempts_checked (e # es))"
| "attempts_checked (e # es) = attempts_checked es"
| "attempts_checked [] = True"

subsection \<open>Sample environments\<close>




definition square_box :: "double list" where
  "square_box = map Finite [10, 10, 60, 10, 60, 60, 10, 60]"


definition silent_env :: "int env" where
  "silent_env =
     \<lparr>env_call = (\<lambda>req w. (Inr empty_reply, w)), env_now = (\<lambda>w. w),
      env_sleep = (\<lambda>ms w. w + ms)\<rparr>"

definition sample_cfg :: cfg where
  "sample_cfg = \<lparr>AX_NAME = ascii ''New chat'', AX_ROLE = ascii ''button'', MAX_TOTAL_MS = Some 1200\<rparr>"

definition start_state :: "int mst" where
  "start_state = \<lparr>inner = \<lparr>world = 0, exchanges = []\<rparr>, trace = []\<rparr>"

definition new_chat_node :: ax_node where
  "new_chat_node = \<lparr>role_value = Some (ascii ''button''), name_value = Some (ascii ''New chat''),
                     backendDOMNodeId = Some 7, nodeId = Some (ascii ''12'')\<rparr>"

definition native_env :: "unit env" where
  "native_env =
     \<lparr>env_call = (\<lambda>req w.
         case req of
           Accessibility_getFullAXTree \<Rightarrow> (Inr (empty_reply\<lparr>nodes := Some [new_chat_node]\<rparr>), w)
         | DOM_getBoxModel i \<Rightarrow> (Inr (box_reply square_box), w)
         | DOM_resolveNode i \<Rightarrow> (Inr (empty_reply\<lparr>object_objectId := Some (ascii ''obj-1'')\<rparr>), w)
         | Runtime_callFunctionOn oid ReadText \<Rightarrow>
             (Inr (empty_reply\<lparr>result_value := Some (VString (ascii ''+ New chat''))\<rparr>), w)
         | _ \<Rightarrow> (Inr empty_reply, w)),
       env_now = (\<lambda>w. 0), env_sleep = (\<lambda>ms w. w)\<rparr>"

definition stubborn_env :: "unit env" where
  "stubborn_env =
     \<lparr>env_call = (\<lambda>req w.
         case req of
           Accessibility_getFullAXTree \<Rightarrow> (Inr (empty_reply\<lparr>nodes := Some [new_chat_node]\<rparr>), w)
         | DOM_getBoxModel i \<Rightarrow> (Inr (box_reply square_box), w)
         | Input_dispatchMouseEvent m px py \<Rightarrow> (Inl ''cdp timeout for Input.dispatchMouseEvent'', w)
         | _ \<Rightarrow> (Inr empty_reply, w)),
       env_now = (\<lambda>w. 0), env_sleep = (\<lambda>ms w. w)\<rparr>"

definition sample_picked :: picked where
  "sample_picked = \<lparr>bid = 7, cx = Finite 35, cy = Finite 35\<rparr>"

definition chat_page :: "unit dom" where
  "chat_page =
     \<lparr>querySelector = (\<lambda>q pg. if q = Sel_textarea then Some 1
                               else if q = Btn_button_type_submit then Some 2 else None),
      querySelectorIn = (\<lambda>ce q pg. if ce = 3 \<and> q = Btn_button_type_submit then Some 2 else None),
      closest_form = (\<lambda>e pg. None),
      parentElement = (\<lambda>e pg. Some 3),
      activeElement = (\<lambda>pg. Some 1),
      tagName = (\<lambda>e pg. if e = 1 then ascii ''TEXTAREA'' else ascii ''BUTTON''),
      type_prop = (\<lambda>e pg. if e = 1 then Some (ascii ''textarea'') else Some (ascii ''submit'')),
      isContentEditable = (\<lambda>e pg. False),
      value_prop = (\<lambda>e pg. StringValue []),
      textContent = (\<lambda>e pg. []),
      placeholder_attr = (\<lambda>e pg. if e = 1 then Some (ascii ''Message DeepSeek'') else None),
      has_InputEvent = True,
      react = (\<lambda>eff pg. pg)\<rparr>"

section \<open>Properties of the multiplexer\<close>



lemma pending_reject_entry [simp]:
  "pending (reject_entry why kv s) = AList.delete (fst kv) (pending s)"
  by (simp add: reject_entry_def settle_def clearTimeout_def Let_def split: option.splits)

lemma settled_reject_entry [simp]:
  "settled (reject_entry why kv s) = settled s @ [(e_promise (snd kv), Rejected why)]"
  by (simp add: reject_entry_def settle_def clearTimeout_def Let_def split: option.splits)

lemma id_var_reject_entry [simp]:
  "id_var (reject_entry why kv s) = id_var s"
  by (simp add: reject_entry_def settle_def clearTimeout_def Let_def split: option.splits)

lemma timers_reject_entry [simp]:
  "timers (reject_entry why kv s) =
     (case e_tid (snd kv) of Some t \<Rightarrow> AList.delete t (timers s) | None \<Rightarrow> timers s)"
  by (simp add: reject_entry_def settle_def clearTimeout_def Let_def split: option.splits)

lemma pending_fold_reject:
  "pending (fold (reject_entry why) xs s) = filter (\<lambda>kv. fst kv \<notin> fst ` set xs) (pending s)"
proof (induction xs arbitrary: s)
  case Nil
  show ?case by simp
next
  case (Cons kv xs)
  show ?case
    by (auto simp: Cons.IH AList.delete_eq case_prod_unfold intro!: filter_cong)
qed

lemma settled_fold_reject:
  "settled (fold (reject_entry why) xs s) =
     settled s @ map (\<lambda>kv. (e_promise (snd kv), Rejected why)) xs"
  by (induction xs arbitrary: s) simp_all

lemma id_var_fold_reject:
  "id_var (fold (reject_entry why) xs s) = id_var s"
  by (induction xs arbitrary: s) simp_all

lemma timers_fold_reject:
  "timers (fold (reject_entry why) xs s) =
     filter (\<lambda>t. Some (fst t) \<notin> (e_tid \<circ> snd) ` set xs) (timers s)"
proof (induction xs arbitrary: s)
  case Nil
  show ?case by simp
next
  case (Cons kv xs)
  show ?case
    by (cases "e_tid (snd kv)")
       (auto simp: Cons.IH AList.delete_eq case_prod_unfold intro!: filter_cong)
qed

lemma set_update_subset: "set (AList.update k v al) \<subseteq> insert (k, v) (set al)"
  by (induction al) auto

lemma set_delete_subset: "set (AList.delete k al) \<subseteq> {kv \<in> set al. fst kv \<noteq> k}"
  by (auto simp: AList.delete_eq)

lemma mux_inv_init: "mux_inv cdp_init"
  by (simp add: mux_inv_def cdp_init_def)

lemma mux_inv_call: "mux_inv s \<Longrightarrow> mux_inv (cdp_call method send_ok s)"
  unfolding mux_inv_def cdp_call_def settle_def Let_def
  using set_update_subset[of "id_var s + 1" _ "pending s"]
    set_update_subset[of "id_var s + 1" _ "timers s"]
  by (cases send_ok) (fastforce)+

lemma mux_inv_message: "mux_inv s \<Longrightarrow> mux_inv (cdp_on_message m s)"
  unfolding mux_inv_def cdp_on_message_def settle_def clearTimeout_def Let_def
  by (auto simp: AList.delete_eq split: frame.splits option.splits error_field.splits
        dest!: map_of_SomeD)

lemma mux_inv_timeout: "mux_inv s \<Longrightarrow> mux_inv (cdp_on_timeout k s)"
  unfolding mux_inv_def cdp_on_timeout_def settle_def Let_def
  by (auto simp: AList.delete_eq split: option.splits dest!: map_of_SomeD)

lemma mux_inv_reject_all: "mux_inv s \<Longrightarrow> mux_inv (fold (reject_entry why) (pending s) s)"
  unfolding mux_inv_def
  by (auto simp: pending_fold_reject settled_fold_reject id_var_fold_reject timers_fold_reject)

lemma mux_inv_step: "mux_inv s \<Longrightarrow> mux_inv (cdp_step ev s)"
  by (cases ev)
     (simp_all add: mux_inv_call mux_inv_message mux_inv_timeout mux_inv_reject_all
        cdp_on_error_def cdp_on_close_def)

lemma mux_inv_fold: "mux_inv s \<Longrightarrow> mux_inv (fold cdp_step evs s)"
  by (induction evs arbitrary: s) (simp_all add: mux_inv_step)

lemma mux_inv_run: "mux_inv (cdp_run evs)"
  by (simp add: cdp_run_def mux_inv_fold mux_inv_init)

lemma invocations_settle:
  "invocations p (settle q out s) = invocations p s @ (if q = p then [out] else [])"
  by (simp add: invocations_def settle_def)

lemma promise_state_rejected:
  "list_all (\<lambda>out. \<exists>why. out = Rejected why) (invocations p s) \<Longrightarrow> invocations p s \<noteq> [] \<Longrightarrow>
   \<exists>why. promise_state p s = Some (Rejected why)"
  by (cases "invocations p s") (auto simp: promise_state_def)

lemma inv_pending_unresolved:
  assumes "mux_inv s" "map_of (pending s) k = Some e"
  shows "e_promise e = k" "list_all (\<lambda>out. \<exists>why. out = Rejected why) (invocations k s)"
proof -
  from assms(2) have mem: "(k, e) \<in> set (pending s)" by (rule map_of_SomeD)
  with assms(1) show "e_promise e = k" by (auto simp: mux_inv_def)
  from assms(1) mem have nores: "\<And>f. (k, Resolved f) \<notin> set (settled s)"
    unfolding mux_inv_def by force
  show "list_all (\<lambda>out. \<exists>why. out = Rejected why) (invocations k s)"
    unfolding invocations_def list_all_iff
  proof
    fix out assume "out \<in> set (map snd (filter (\<lambda>q. fst q = k) (settled s)))"
    then have "(k, out) \<in> set (settled s)" by auto
    with nores show "\<exists>why. out = Rejected why" by (cases out) auto
  qed
qed

lemma reject_all_facts:
  fixes why :: string
  assumes inv: "mux_inv s" and k: "k \<in> fst ` set (pending s)"
  defines "c \<equiv> fold (reject_entry why) (pending s) s"
  shows "pending c = []"
    and "settled c = settled s @ map (\<lambda>kv. (fst kv, Rejected why)) (pending s)"
    and "\<exists>w. promise_state k c = Some (Rejected w)"
    and "map_of (timers c) k = None"
proof -
  show "pending c = []"
    by (simp add: c_def pending_fold_reject filter_empty_conv)
  have prom: "\<And>kv. kv \<in> set (pending s) \<Longrightarrow> e_promise (snd kv) = fst kv"
    and tid: "\<And>kv. kv \<in> set (pending s) \<Longrightarrow> e_tid (snd kv) = Some (fst kv)"
    using inv by (auto simp: mux_inv_def)
  show st: "settled c = settled s @ map (\<lambda>kv. (fst kv, Rejected why)) (pending s)"
    by (simp add: c_def settled_fold_reject prom cong: map_cong)
  from k obtain e where mem: "(k, e) \<in> set (pending s)" by auto
  from inv mem have nores: "\<And>f. (k, Resolved f) \<notin> set (settled s)"
    unfolding mux_inv_def by force
  have all: "list_all (\<lambda>out. \<exists>w. out = Rejected w) (invocations k c)"
    unfolding list_all_iff
  proof
    fix out assume "out \<in> set (invocations k c)"
    then have "(k, out) \<in> set (settled c)" by (auto simp: invocations_def)
    then have "(k, out) \<in> set (settled s) \<or> out = Rejected why" by (auto simp: st)
    with nores show "\<exists>w. out = Rejected w" by (cases out) auto
  qed
  have "(k, Rejected why) \<in> set (settled c)" using mem by (force simp: st)
  then have ne: "invocations k c \<noteq> []" by (force simp: invocations_def filter_empty_conv)
  show "\<exists>w. promise_state k c = Some (Rejected w)"
    by (rule promise_state_rejected[OF all ne])
  have "Some k \<in> (e_tid \<circ> snd) ` set (pending s)"
    using tid[OF mem] mem by force
  then have "k \<notin> fst ` set (timers c)"
    by (auto simp: c_def timers_fold_reject)
  then show "map_of (timers c) k = None"
    by (simp add: map_of_eq_None_iff)
qed

text \<open>
  C1: every promise returned by the call function is settled exactly once, by the
  matching response, by the connection's error or close, or by its timeout, and never
  stays unsettled past its deadline, also with several calls in flight. The code does
  not keep this. The timer's callback reads the shared counter \<open>id\<close> when it fires, not the
  id of its own call. In the opener, with two calls in flight, the first call's timer
  deletes the entry of the second call and rejects the first promise; the answer to the
  second call then finds no entry, the second timer finds no entry, and the close handler
  finds only the first entry: the second promise is never settled, and \<open>reject\<close> of
  the first is invoked twice. In the injector no timer is ever cleared, so the same
  happens with one call in flight: the timer of an answered call deletes the entry of
  the call that is waiting.
\<close>

theorem cdp_call_left_unsettled:
  "(let s = cdp_run [Call ''DOM.getBoxModel'' True, Call ''DOM.getBoxModel'' True, Timeout 1,
                     Message (Parsed (Some 2) ErrAbsent []), Timeout 2, SocketClose]
    in promise_state 2 s = None
       \<and> invocations 1 s = [Rejected ''cdp timeout for DOM.getBoxModel'', Rejected ''ws closed'']
       \<and> pending s = [] \<and> timers s = [])
   \<and>
   (let s = cdp2_run [Call ''Runtime.enable'' True, Message (Parsed (Some 1) ErrAbsent []),
                      Call ''Runtime.evaluate'' True, Timeout 1,
                      Message (Parsed (Some 2) ErrAbsent []), Timeout 2]
    in promise_state 2 s = None
       \<and> invocations 1 s = [Resolved (Parsed (Some 1) ErrAbsent []), Rejected ''cdp timeout'']
       \<and> pending s = [] \<and> timers s = [])"
  by (simp add: cdp_run_def cdp2_run_def cdp_init_def cdp_call_def cdp2_call_def
      cdp_on_message_def cdp2_on_message_def cdp_on_timeout_def cdp2_on_timeout_def
      cdp_on_close_def reject_entry_def settle_def clearTimeout_def promise_state_def
      invocations_def AList.delete_eq Let_def)

text \<open>
  C2: a pending call whose matching frame carries an error field is rejected and
  never resolved with that frame. This holds of the opener's multiplexer for a truthy
  error field: after any history of events, a frame with a truthy \<open>error\<close> for an id in
  the table invokes that call's \<open>reject\<close> with the error's message (or
  \<open>cdp error\<close>), leaves the promise rejected and removes the entry. The injector's
  handler makes no test of \<open>d.error\<close>: it invokes \<open>resolve\<close> with the frame, whatever
  the error field.
\<close>

theorem cdp_error_frame_rejects:
  "map_of (pending (cdp_run evs)) k = Some e \<Longrightarrow> map_of (pending u) j = Some e2 \<Longrightarrow>
   (let s = cdp_run evs; s' = cdp_on_message (Parsed (Some k) (ErrTruthy msg) body) s
    in invocations k s' =
         invocations k s @ [Rejected (case msg of Some t \<Rightarrow> t | None \<Rightarrow> ''cdp error'')]
       \<and> (\<exists>why. promise_state k s' = Some (Rejected why))
       \<and> map_of (pending s') k = None) \<and>
   settled (cdp2_on_message (Parsed (Some j) err body2) u) =
     settled u @ [(e_promise e2, Resolved (Parsed (Some j) err body2))]"
proof -
  assume pk: "map_of (pending (cdp_run evs)) k = Some e" and pj: "map_of (pending u) j = Some e2"
  define s where "s = cdp_run evs"
  define why where "why = (case msg of Some t \<Rightarrow> t | None \<Rightarrow> ''cdp error'')"
  define s' where "s' = cdp_on_message (Parsed (Some k) (ErrTruthy msg) body) s"
  have inv: "mux_inv s" by (simp add: s_def mux_inv_run)
  from pk have pk': "map_of (pending s) k = Some e" by (simp add: s_def)
  have ek: "e_promise e = k" and old: "list_all (\<lambda>out. \<exists>why. out = Rejected why) (invocations k s)"
    using inv_pending_unresolved[OF inv pk'] by auto
  have s'_eq: "invocations k s' = invocations k s @ [Rejected why]"
    using pk' ek
    by (simp add: s'_def cdp_on_message_def why_def invocations_def settle_def clearTimeout_def
        Let_def split: option.splits)
  have all: "list_all (\<lambda>out. \<exists>why. out = Rejected why) (invocations k s')"
    using old by (simp add: s'_eq)
  have st: "\<exists>why. promise_state k s' = Some (Rejected why)"
    by (rule promise_state_rejected[OF all]) (simp add: s'_eq)
  have gone: "map_of (pending s') k = None"
    using pk'
    by (simp add: s'_def cdp_on_message_def settle_def clearTimeout_def Let_def
        AList.delete_conv' split: option.splits)
  have inj: "settled (cdp2_on_message (Parsed (Some j) err body2) u) =
     settled u @ [(e_promise e2, Resolved (Parsed (Some j) err body2))]"
    using pj by (simp add: cdp2_on_message_def settle_def)
  show ?thesis
    using s'_eq st gone inj unfolding Let_def s'_def s_def why_def by simp
qed

theorem cdp_error_frame_rejects_witness:
  "(let s = cdp_run [Call ''DOM.getDocument'' True];
        s' = cdp_on_message (Parsed (Some 1) (ErrTruthy (Some ''no document'')) []) s
    in invocations 1 s' = invocations 1 s @ [Rejected ''no document'']
       \<and> (\<exists>why. promise_state 1 s' = Some (Rejected why))
       \<and> map_of (pending s') 1 = None) \<and>
   settled (cdp2_on_message (Parsed (Some 1) (ErrTruthy (Some ''no document'')) [])
              (cdp2_run [Call ''Runtime.enable'' True])) =
     settled (cdp2_run [Call ''Runtime.enable'' True]) @
       [(1, Resolved (Parsed (Some 1) (ErrTruthy (Some ''no document'')) []))]"
proof -
  have a: "map_of (pending (cdp_run [Call ''DOM.getDocument'' True])) 1
             = Some \<lparr>e_promise = 1, e_tid = Some 1\<rparr>"
    by (simp add: cdp_run_def cdp_init_def cdp_call_def)
  have b: "map_of (pending (cdp2_run [Call ''Runtime.enable'' True])) 1
             = Some \<lparr>e_promise = 1, e_tid = None\<rparr>"
    by (simp add: cdp2_run_def cdp_init_def cdp2_call_def)
  show ?thesis
    using cdp_error_frame_rejects[OF a b, of "Some ''no document''" "[]"
        "ErrTruthy (Some ''no document'')" "[]"]
    by simp
qed

text \<open>
  The claim as stated fails: the injector resolves with a frame that carries an error
  object, and the opener resolves with a frame whose error field is present and falsy.
\<close>

theorem cdp_error_frame_counterexample:
  "promise_state 1
     (cdp2_run [Call ''Runtime.evaluate'' True,
                Message (Parsed (Some 1) (ErrTruthy (Some ''Cannot find context'')) [])])
     = Some (Resolved (Parsed (Some 1) (ErrTruthy (Some ''Cannot find context'')) []))
   \<and> promise_state 1
     (cdp_run [Call ''Runtime.evaluate'' True, Message (Parsed (Some 1) ErrFalsy [])])
     = Some (Resolved (Parsed (Some 1) ErrFalsy []))"
  by (simp add: cdp2_run_def cdp_run_def cdp_init_def cdp2_call_def cdp_call_def
      cdp2_on_message_def cdp_on_message_def settle_def clearTimeout_def promise_state_def
      invocations_def AList.delete_eq Let_def)

text \<open>
  C3: when the connection closes or errors, every call in the table is rejected
  and removed. This holds of the opener's multiplexer: after any history of events, the
  close and the error handler invoke \<open>reject\<close> of every entry of the table, in the
  table's order, leave every such promise rejected, clear its timer and empty the table.
  The injector registers no close or error handler: both events leave its state as it
  is.
\<close>

theorem cdp_close_rejects_table:
  "k \<in> fst ` set (pending (cdp_run evs)) \<Longrightarrow>
   (let s = cdp_run evs; c = cdp_on_close s; r = cdp_on_error s
    in pending c = [] \<and> pending r = []
       \<and> settled c = settled s @ map (\<lambda>kv. (fst kv, Rejected ''ws closed'')) (pending s)
       \<and> settled r = settled s @ map (\<lambda>kv. (fst kv, Rejected ''ws error'')) (pending s)
       \<and> (\<exists>w. promise_state k c = Some (Rejected w))
       \<and> (\<exists>w. promise_state k r = Some (Rejected w))
       \<and> map_of (timers c) k = None \<and> map_of (timers r) k = None)
   \<and> cdp2_step SocketClose u = u \<and> cdp2_step SocketError u = u"
  using reject_all_facts[OF mux_inv_run, of k evs]
  by (simp add: Let_def cdp_on_close_def cdp_on_error_def)

theorem cdp_close_rejects_table_witness:
  "(let s = cdp_run [Call ''Page.enable'' True, Call ''DOM.enable'' True];
        c = cdp_on_close s; r = cdp_on_error s
    in pending c = [] \<and> pending r = []
       \<and> settled c = settled s @ map (\<lambda>kv. (fst kv, Rejected ''ws closed'')) (pending s)
       \<and> settled r = settled s @ map (\<lambda>kv. (fst kv, Rejected ''ws error'')) (pending s)
       \<and> (\<exists>w. promise_state 2 c = Some (Rejected w))
       \<and> (\<exists>w. promise_state 2 r = Some (Rejected w))
       \<and> map_of (timers c) 2 = None \<and> map_of (timers r) 2 = None)
   \<and> cdp2_step SocketClose cdp_init = cdp_init \<and> cdp2_step SocketError cdp_init = cdp_init"
proof -
  have a: "2 \<in> fst ` set (pending (cdp_run [Call ''Page.enable'' True, Call ''DOM.enable'' True]))"
    by (simp add: cdp_run_def cdp_init_def cdp_call_def)
  show ?thesis
    using cdp_close_rejects_table[OF a, of cdp_init] by simp
qed

text \<open>
  The claim as stated fails on the injector: after the socket has closed, the call is
  still in the table and its promise is still pending.
\<close>

theorem cdp_close_counterexample:
  "(let s = cdp2_run [Call ''Runtime.evaluate'' True, SocketClose]
    in map_of (pending s) 1 = Some \<lparr>e_promise = 1, e_tid = None\<rparr> \<and> promise_state 1 s = None)"
  by (simp add: cdp2_run_def cdp_init_def cdp2_call_def promise_state_def invocations_def)

section \<open>Properties of the strategies\<close>

subsection \<open>The arithmetic of doubles\<close>

declare bit_length.simps [simp del]

lemma bit_length_numeral [simp]:
  "bit_length 0 = 0" "bit_length 1 = 1"
  "bit_length (numeral n) = 1 + bit_length (numeral n div 2)"
  by (subst bit_length.simps, simp)+

lemma floor_rat_numeral [simp]:
  "\<lfloor>(numeral a :: rat) / numeral b\<rfloor> = numeral a div numeral b"
  using floor_divide_of_int_eq[of "numeral a" "numeral b", where ?'a = rat] by simp

lemmas double_rounding =
  round_to_double_def with_sign_def nearest_multiple_def ulp_of_def round_half_even_def
  ties_to_even_def binade_def pow2_def zero_of_def inf_of_def Let_def

lemmas double_ops =
  js_add_def js_sub_def js_mul_def js_div_def js_max2_def js_min2_def Math_max_def Math_min_def
  js_gt_def js_le_def

text \<open>
  Sums, products and literals are rounded: \<open>0.1 + 0.2\<close> is \<open>0.30000000000000004\<close>,
  \<open>1070.6 - 757\<close> is \<open>313.5999999999999\<close>, \<open>16.9 - 15.9\<close> is \<open>0.9999999999999982\<close>,
  and \<open>2 ^ 53 + 1\<close> is \<open>2 ^ 53\<close>.
\<close>

lemma js_add_tenths:
  "js_add (round_to_double (1 / 10)) (round_to_double (2 / 10))
     = round_to_double (30000000000000004 / 100000000000000000)"
  "js_add (round_to_double (1 / 10)) (round_to_double (2 / 10)) \<noteq> round_to_double (3 / 10)"
  by (simp_all add: double_ops double_rounding)

lemma js_sub_rounds:
  "js_sub (round_to_double (10706 / 10)) (Finite 757)
     = round_to_double (3135999999999999 / 10000000000000)"
  "js_sub (round_to_double (169 / 10)) (round_to_double (159 / 10))
     = round_to_double (9999999999999982 / 10000000000000000)"
  by (simp_all add: double_ops double_rounding)

lemma js_add_absorbs: "js_add (Finite (2 ^ 53)) (Finite 1) = Finite (2 ^ 53)"
  by (simp add: double_ops double_rounding)

lemma js_lt_irrefl [simp]: "\<not> js_lt a a"
  by (cases a) simp_all



lemma pow2_pos [simp]: "0 < pow2 e"
  by (simp add: pow2_def)


lemma round_to_double_not_NaN [simp]: "round_to_double t \<noteq> NaN"
  by (simp add: round_to_double_def with_sign_def inf_of_def zero_of_def)










subsection \<open>pickNode\<close>





















lemma square_box_geometry:
  "length square_box = 8" "finite_quad square_box"
  "quad_width square_box = Finite 50" "quad_height square_box = Finite 50"
  "js_mul (Finite 50) (Finite 50) = Finite 2500"
  "quad_cx square_box = Finite 35" "quad_cy square_box = Finite 35"
  by (simp_all add: square_box_def finite_quad_def quad_width_def quad_height_def quad_cx_def
      quad_cy_def double_ops double_rounding)



subsection \<open>What the strategies return\<close>

lemma returnsD: "returns m Q \<Longrightarrow> m s = (Inr r, s') \<Longrightarrow> Q r"
  by (auto simp: returns_def)

lemma returns_ret: "Q v \<Longrightarrow> returns (ret v) Q"
  by (simp add: returns_def ret_def)

lemma returns_throw: "returns (throw e) Q"
  by (simp add: returns_def throw_def)

lemma returns_bnd:
  assumes "returns m P" and "\<And>a. P a \<Longrightarrow> returns (f a) Q"
  shows "returns (bnd m f) Q"
  unfolding returns_def
proof (intro allI impI)
  fix s r s' assume run: "bnd m f s = (Inr r, s')"
  obtain o1 s1 where m: "m s = (o1, s1)" by (cases "m s")
  with run obtain a where a: "o1 = Inr a" and f: "f a s1 = (Inr r, s')"
    by (cases o1) (auto simp: bnd_def)
  from assms(1) m a have "P a" by (auto simp: returns_def)
  from assms(2)[OF this] f show "Q r" by (auto simp: returns_def)
qed

lemma returns_any: "returns m (\<lambda>_. True)"
  by (simp add: returns_def)

lemma returns_try_catch:
  assumes "returns m Q" and "returns h Q"
  shows "returns (try_catch m h) Q"
  unfolding returns_def
proof (intro allI impI)
  fix s r s' assume run: "try_catch m h s = (Inr r, s')"
  obtain o1 s1 where m: "m s = (o1, s1)" by (cases "m s")
  show "Q r"
  proof (cases o1)
    case (Inl e)
    with run m have "h s1 = (Inr r, s')" by (simp add: try_catch_def)
    with assms(2) show ?thesis by (auto simp: returns_def)
  next
    case (Inr a)
    with run m have "m s = (Inr r, s')" by (simp add: try_catch_def)
    with assms(1) show ?thesis by (auto simp: returns_def)
  qed
qed

lemma returns_click_result: "ok_or_plain_failure (click_result p how)"
  by (simp add: ok_or_plain_failure_def click_result_def)

lemma returns_fail_result: "ok_or_plain_failure fail_result"
  by (simp add: ok_or_plain_failure_def)

lemma returns_dispatch_then:
  "returns (bnd (dispatch_click env px py) (\<lambda>_. ret (click_result p how))) ok_or_plain_failure"
  by (rule returns_bnd[OF returns_any]) (rule returns_ret, rule returns_click_result)

lemma returns_clickByAX_native:
  "returns (clickByAX_native c env p) (\<lambda>r. \<forall>v. r = Some v \<longrightarrow> ok_or_plain_failure v)"
  unfolding clickByAX_native_def
  by (intro returns_bnd[OF returns_any])
     (auto intro!: returns_bnd[OF returns_any] returns_ret returns_throw
        simp: returns_click_result split: sum.splits)

lemma returns_clickByAX_picked: "returns (clickByAX_picked c env p) ok_or_plain_failure"
  unfolding clickByAX_picked_def
proof (rule returns_bnd)
  show "returns (try_catch (clickByAX_native c env p) (ret None))
          (\<lambda>r. \<forall>v. r = Some v \<longrightarrow> ok_or_plain_failure v)"
    by (rule returns_try_catch[OF returns_clickByAX_native]) (simp add: returns_ret)
next
  fix a :: "result option" assume "\<forall>v. a = Some v \<longrightarrow> ok_or_plain_failure v"
  then show "returns (case a of None \<Rightarrow> bnd (dispatch_click env (cx p) (cy p))
                 (\<lambda>_. ret (click_result p ''dispatchMouseEvent'')) | Some v \<Rightarrow> ret v)
               ok_or_plain_failure"
    by (cases a) (auto intro: returns_dispatch_then returns_ret)
qed

lemma returns_clickByAX: "returns (clickByAX c env) ok_or_plain_failure"
  unfolding clickByAX_def
  by (intro returns_bnd[OF returns_any])
     (auto intro: returns_ret returns_fail_result returns_clickByAX_picked split: option.splits)

lemma returns_clickByDOM: "returns (clickByDOM c env) ok_or_plain_failure"
  unfolding clickByDOM_def
  by (intro returns_bnd[OF returns_any])
     (auto intro!: returns_ret simp: ok_or_plain_failure_def split: option.splits js_value.splits)

lemma returns_frame_try:
  "returns (frame_try env fid) (\<lambda>r. \<forall>v. r = Some v \<longrightarrow> ok_or_plain_failure v)"
  unfolding frame_try_def
  by (intro returns_bnd[OF returns_any])
     (auto intro!: returns_ret simp: ok_or_plain_failure_def split: option.splits js_value.splits)

lemma returns_frames_loop: "returns (frames_loop env fids) ok_or_plain_failure"
proof (induction fids)
  case Nil
  show ?case by (simp add: returns_ret returns_fail_result)
next
  case (Cons fid rest)
  show ?case
    unfolding frames_loop.simps
  proof (rule returns_bnd)
    show "returns (try_catch (frame_try env fid) (ret None))
            (\<lambda>r. \<forall>v. r = Some v \<longrightarrow> ok_or_plain_failure v)"
      by (rule returns_try_catch[OF returns_frame_try]) (simp add: returns_ret)
  next
    fix a :: "result option" assume "\<forall>v. a = Some v \<longrightarrow> ok_or_plain_failure v"
    then show "returns (case a of None \<Rightarrow> frames_loop env rest | Some v \<Rightarrow> ret v)
                 ok_or_plain_failure"
      by (cases a) (auto intro: Cons.IH returns_ret)
  qed
qed

lemma returns_clickByFrames: "returns (clickByFrames c env) ok_or_plain_failure"
  unfolding clickByFrames_def
  by (intro returns_bnd[OF returns_any]) (rule returns_frames_loop)

lemma returns_clickByAXQuery_native:
  "returns (clickByAXQuery_native env p) (\<lambda>r. \<forall>v. r = Some v \<longrightarrow> ok_or_plain_failure v)"
  unfolding clickByAXQuery_native_def
  by (intro returns_bnd[OF returns_any])
     (auto intro!: returns_bnd[OF returns_any] returns_ret simp: returns_click_result)

lemma returns_clickByAXQuery_body:
  "returns (clickByAXQuery_body c env nid) ok_or_plain_failure"
  unfolding clickByAXQuery_body_def
proof (rule returns_bnd[OF returns_any])
  fix q :: reply
  let ?bids = "axq_bids c (case nodes q of None \<Rightarrow> [] | Some ns \<Rightarrow> ns)"
  have inner: "returns (bnd (try_catch (clickByAXQuery_native env p) (ret None))
                 (\<lambda>r. case r of None \<Rightarrow> bnd (dispatch_click env (cx p) (cy p))
                           (\<lambda>_. ret (click_result p ''axQueryDispatch''))
                       | Some v \<Rightarrow> ret v)) ok_or_plain_failure" for p
  proof (rule returns_bnd)
    show "returns (try_catch (clickByAXQuery_native env p) (ret None))
            (\<lambda>r. \<forall>v. r = Some v \<longrightarrow> ok_or_plain_failure v)"
      by (rule returns_try_catch[OF returns_clickByAXQuery_native]) (simp add: returns_ret)
  next
    fix a :: "result option" assume "\<forall>v. a = Some v \<longrightarrow> ok_or_plain_failure v"
    then show "returns (case a of None \<Rightarrow> bnd (dispatch_click env (cx p) (cy p))
                   (\<lambda>_. ret (click_result p ''axQueryDispatch'')) | Some v \<Rightarrow> ret v)
                 ok_or_plain_failure"
      by (cases a) (auto intro: returns_dispatch_then returns_ret)
  qed
  show "returns (if ?bids = [] then ret fail_result
          else bnd (pickNode env ?bids)
                 (\<lambda>pk. case pk of None \<Rightarrow> ret fail_result
                   | Some p \<Rightarrow> bnd (try_catch (clickByAXQuery_native env p) (ret None))
                       (\<lambda>r. case r of None \<Rightarrow> bnd (dispatch_click env (cx p) (cy p))
                                 (\<lambda>_. ret (click_result p ''axQueryDispatch''))
                             | Some v \<Rightarrow> ret v))) ok_or_plain_failure"
    by (auto intro!: returns_ret returns_fail_result returns_bnd[OF returns_any] inner
        split: option.splits)
qed

lemma returns_clickByAXQuery: "returns (clickByAXQuery c env) ok_or_plain_failure"
  unfolding clickByAXQuery_def
  by (intro returns_bnd[OF returns_any])
     (auto intro!: returns_ret returns_fail_result returns_try_catch returns_clickByAXQuery_body)

lemma returns_attempt_chain: "returns (attempt_chain c env) ok_or_plain_failure"
  unfolding attempt_chain_def
  by (intro returns_bnd[OF returns_any])
     (auto intro!: returns_ret returns_clickByAX returns_clickByDOM returns_clickByFrames
        simp: ok_or_plain_failure_def)

subsection \<open>The chain of strategies\<close>

text \<open>
  C4: within one attempt the strategies run in the order accessibility query, full
  accessibility scan, in-page script, per-frame query, each at most once, a later one
  only if every earlier one returned a failure result, and the attempt's result is the
  first success, or a failure result if all four fail. Here: there is \<open>k < 4\<close> such
  that the strategies before the \<open>k\<close>-th ran in order, once each, each returning a
  failure result; the chain's outcome and final state are those of the \<open>k\<close>-th
  strategy run in the state they left; and the chain ended before the fourth strategy
  only because the \<open>k\<close>-th returned a success or threw.
\<close>

theorem attempt_chain_first_success:
  "\<exists>k < 4. \<exists>mid.
      all_fail (take k (strategies c env)) s = Some mid \<and>
      attempt_chain c env s = (strategies c env ! k) mid \<and>
      (k = 3 \<or> stops_chain ((strategies c env ! k) mid))"
proof -
  let ?S = "strategies c env"
  have t1: "take (Suc 0) ?S = [clickByAXQuery c env]"
    and t2: "take 2 ?S = [clickByAXQuery c env, clickByAX c env]"
    and t3: "take 3 ?S = [clickByAXQuery c env, clickByAX c env, clickByDOM c env]"
    by (simp_all add: strategies_def numeral_2_eq_2 numeral_3_eq_3)
  have n0: "?S ! 0 = clickByAXQuery c env" and n1: "?S ! Suc 0 = clickByAX c env"
    and n2: "?S ! 2 = clickByDOM c env" and n3: "?S ! 3 = clickByFrames c env"
    by (simp_all add: strategies_def numeral_2_eq_2 numeral_3_eq_3)
  obtain o1 s1 where a1: "clickByAXQuery c env s = (o1, s1)" by (cases "clickByAXQuery c env s")
  show ?thesis
  proof (cases "stops_chain (o1, s1)")
    case True
    then have "attempt_chain c env s = (o1, s1)"
      by (cases o1) (auto simp: attempt_chain_def bnd_def ret_def a1 stops_chain_def)
    then have "all_fail (take 0 ?S) s = Some s \<and> attempt_chain c env s = (?S ! 0) s
               \<and> (0 = (3::nat) \<or> stops_chain ((?S ! 0) s))"
      using True by (simp add: n0 a1)
    then show ?thesis by (intro exI[of _ 0] conjI exI[of _ s]) simp_all
  next
    case f1: False
    then obtain r1 where r1: "o1 = Inr r1" "\<not> ok r1"
      by (cases o1) (auto simp: stops_chain_def)
    obtain o2 s2 where a2: "clickByAX c env s1 = (o2, s2)" by (cases "clickByAX c env s1")
    have af1: "all_fail (take (Suc 0) ?S) s = Some s1"
      by (simp add: t1 a1 r1)
    show ?thesis
    proof (cases "stops_chain (o2, s2)")
      case True
      then have "attempt_chain c env s = (o2, s2)"
        by (cases o2) (auto simp: attempt_chain_def bnd_def ret_def a1 r1 a2 stops_chain_def)
      then have "all_fail (take (Suc 0) ?S) s = Some s1
                 \<and> attempt_chain c env s = (?S ! Suc 0) s1
                 \<and> (Suc 0 = 3 \<or> stops_chain ((?S ! Suc 0) s1))"
        using True af1 by (simp add: n1 a2)
      then show ?thesis by (intro exI[of _ "Suc 0"] conjI exI[of _ s1]) simp_all
    next
      case f2: False
      then obtain r2 where r2: "o2 = Inr r2" "\<not> ok r2"
        by (cases o2) (auto simp: stops_chain_def)
      obtain o3 s3 where a3: "clickByDOM c env s2 = (o3, s3)" by (cases "clickByDOM c env s2")
      have af2: "all_fail (take 2 ?S) s = Some s2"
        by (simp add: t2 a1 r1 a2 r2)
      show ?thesis
      proof (cases "stops_chain (o3, s3)")
        case True
        then have "attempt_chain c env s = (o3, s3)"
          by (cases o3)
             (auto simp: attempt_chain_def bnd_def ret_def a1 r1 a2 r2 a3 stops_chain_def)
        then have "all_fail (take 2 ?S) s = Some s2 \<and> attempt_chain c env s = (?S ! 2) s2
                   \<and> (2 = (3::nat) \<or> stops_chain ((?S ! 2) s2))"
          using True af2 by (simp add: n2 a3)
        then show ?thesis by (intro exI[of _ 2] conjI exI[of _ s2]) simp_all
      next
        case f3: False
        then obtain r3 where r3: "o3 = Inr r3" "\<not> ok r3"
          by (cases o3) (auto simp: stops_chain_def)
        have af3: "all_fail (take 3 ?S) s = Some s3"
          by (simp add: t3 a1 r1 a2 r2 a3 r3)
        have "attempt_chain c env s = clickByFrames c env s3"
          by (simp add: attempt_chain_def bnd_def ret_def a1 r1 a2 r2 a3 r3)
        then have "all_fail (take 3 ?S) s = Some s3 \<and> attempt_chain c env s = (?S ! 3) s3
                   \<and> (3 = (3::nat) \<or> stops_chain ((?S ! 3) s3))"
          using af3 by (simp add: n3)
        then show ?thesis by (intro exI[of _ 3] conjI exI[of _ s3]) simp_all
      qed
    qed
  qed
qed

lemma silent_AXQuery: "clickByAXQuery c silent_env s = (Inr fail_result,
   \<lparr>world = world s, exchanges = exchanges s @ [(DOM_getDocument, Inr empty_reply)]\<rparr>)"
  by (simp add: clickByAXQuery_def bnd_def ret_def call_def silent_env_def empty_reply_def
      truthy_int_def)

lemma silent_AX: "clickByAX c silent_env s = (Inr fail_result,
   \<lparr>world = world s, exchanges = exchanges s @ [(Accessibility_getFullAXTree, Inr empty_reply)]\<rparr>)"
  by (simp add: clickByAX_def bnd_def ret_def call_def silent_env_def empty_reply_def ax_bids_def)

lemma silent_DOM: "clickByDOM c silent_env s = (Inr fail_result,
   \<lparr>world = world s,
    exchanges = exchanges s @ [(Runtime_evaluate ClickExprRuntime None, Inr empty_reply)]\<rparr>)"
  by (simp add: clickByDOM_def bnd_def ret_def call_def silent_env_def empty_reply_def)

lemma silent_Frames: "clickByFrames c silent_env s = (Inr fail_result,
   \<lparr>world = world s, exchanges = exchanges s @ [(Page_getFrameTree, Inr empty_reply)]\<rparr>)"
  by (simp add: clickByFrames_def bnd_def ret_def call_def silent_env_def empty_reply_def)

lemma silent_chain: "attempt_chain c silent_env s = (Inr fail_result,
   \<lparr>world = world s,
    exchanges = exchanges s @
      [(DOM_getDocument, Inr empty_reply), (Accessibility_getFullAXTree, Inr empty_reply),
       (Runtime_evaluate ClickExprRuntime None, Inr empty_reply),
       (Page_getFrameTree, Inr empty_reply)]\<rparr>)"
  by (simp add: attempt_chain_def bnd_def silent_AXQuery silent_AX silent_DOM silent_Frames
      fail_result_def)

theorem attempt_chain_first_success_witness:
  "(\<exists>k < 4. \<exists>mid.
      all_fail (take k (strategies sample_cfg silent_env)) (inner start_state) = Some mid \<and>
      attempt_chain sample_cfg silent_env (inner start_state)
        = (strategies sample_cfg silent_env ! k) mid \<and>
      (k = 3 \<or> stops_chain ((strategies sample_cfg silent_env ! k) mid)))
   \<and> fst (attempt_chain sample_cfg silent_env (inner start_state)) = Inr fail_result"
  using attempt_chain_first_success[of sample_cfg silent_env "inner start_state"]
  by (simp add: silent_chain)

subsection \<open>The retry loop\<close>

declare retry_loop.simps [simp del]

lemma trace_lift [simp]: "trace (snd (lift m s)) = trace s"
  by (simp add: lift_def split: prod.splits)

lemma lift_returns:
  "returns m Q \<Longrightarrow> lift m s = (Inr r, s') \<Longrightarrow> Q r"
  by (auto simp: lift_def returns_def split: prod.splits)

lemma retry_loop_stop:
  "\<not> (attempt < 5 \<and> \<not> ok r) \<Longrightarrow> retry_loop c env start attempt r s = (Inr r, s)"
  by (subst retry_loop.simps) auto

lemma retry_loop_throw:
  "attempt < 5 \<and> \<not> ok r \<Longrightarrow>
   lift (attempt_chain c env) (console_log (Attempt (attempt + 1)) s) = (Inl e, s1) \<Longrightarrow>
   retry_loop c env start attempt r s = (Inl e, s1)"
  by (subst retry_loop.simps) simp

lemma retry_loop_break:
  "attempt < 5 \<and> \<not> ok r \<Longrightarrow>
   lift (attempt_chain c env) (console_log (Attempt (attempt + 1)) s) = (Inr r1, s1) \<Longrightarrow>
   date_now env (if \<not> ok r1 then sleep env 500 s1 else s1) = (now, s2) \<Longrightarrow>
   deadline_passed now start (MAX_TOTAL_MS c) \<Longrightarrow>
   retry_loop c env start attempt r s = (Inr r1, console_log TimeoutReached s2)"
  by (subst retry_loop.simps) simp

lemma retry_loop_again:
  "attempt < 5 \<and> \<not> ok r \<Longrightarrow>
   lift (attempt_chain c env) (console_log (Attempt (attempt + 1)) s) = (Inr r1, s1) \<Longrightarrow>
   date_now env (if \<not> ok r1 then sleep env 500 s1 else s1) = (now, s2) \<Longrightarrow>
   \<not> deadline_passed now start (MAX_TOTAL_MS c) \<Longrightarrow>
   retry_loop c env start attempt r s = retry_loop c env start (attempt + 1) r1 s2"
  by (subst retry_loop.simps) simp

lemma retry_loop_trace:
  "\<exists>ext. trace (snd (retry_loop c env start attempt r s)) = trace s @ ext \<and>
         length (filter is_attempt ext) \<le> 5 - attempt \<and>
         (case MAX_TOTAL_MS c of None \<Rightarrow> True | Some m \<Rightarrow> deadline_respected start m ext) \<and>
         attempts_checked ext \<and>
         Console UsingFallback \<notin> set ext"
proof (induction c env start attempt r s rule: retry_loop.induct)
  case (1 c env start attempt r s)
  show ?case
  proof (cases "attempt < 5 \<and> \<not> ok r")
    case False
    then have "retry_loop c env start attempt r s = (Inr r, s)" by (rule retry_loop_stop)
    then show ?thesis by (auto split: option.splits)
  next
    case go: True
    let ?s0 = "console_log (Attempt (attempt + 1)) s"
    obtain o1 s1 where ch: "lift (attempt_chain c env) ?s0 = (o1, s1)"
      by (cases "lift (attempt_chain c env) ?s0")
    have tr1: "trace s1 = trace s @ [Console (Attempt (attempt + 1))]"
      using arg_cong[OF ch, of "\<lambda>p. trace (snd p)"] by (simp add: console_log_def)
    show ?thesis
    proof (cases o1)
      case (Inl e)
      then have "retry_loop c env start attempt r s = (Inl e, s1)"
        using go ch by (simp add: retry_loop_throw)
      then show ?thesis using tr1 go by (auto split: option.splits)
    next
      case (Inr r1)
      let ?s1' = "if \<not> ok r1 then sleep env 500 s1 else s1"
      obtain now s2 where dn: "date_now env ?s1' = (now, s2)" by (cases "date_now env ?s1'")
      have tr2: "trace s2 = trace s @ [Console (Attempt (attempt + 1)), Clock now]"
        using dn tr1 by (auto simp: date_now_def sleep_def split: if_splits)
      show ?thesis
      proof (cases "deadline_passed now start (MAX_TOTAL_MS c)")
        case True
        then have "retry_loop c env start attempt r s = (Inr r1, console_log TimeoutReached s2)"
          using go ch Inr dn by (simp add: retry_loop_break)
        then have "trace (snd (retry_loop c env start attempt r s)) =
            trace s @ [Console (Attempt (attempt + 1)), Clock now, Console TimeoutReached]"
          by (simp add: console_log_def tr2)
        then show ?thesis using go True
          by (auto simp: deadline_passed_def split: option.splits)
      next
        case False
        then have eq: "retry_loop c env start attempt r s
                         = retry_loop c env start (attempt + 1) r1 s2"
          using go ch Inr dn by (simp add: retry_loop_again)
        from "1.IH"[OF go ch[symmetric] Inr dn[symmetric] False]
        obtain ext where ext: "trace (snd (retry_loop c env start (attempt + 1) r1 s2))
              = trace s2 @ ext"
          "length (filter is_attempt ext) \<le> 5 - (attempt + 1)"
          "(case MAX_TOTAL_MS c of None \<Rightarrow> True | Some m \<Rightarrow> deadline_respected start m ext)"
          "Console UsingFallback \<notin> set ext" "attempts_checked ext"
          by blast
        have "trace (snd (retry_loop c env start attempt r s)) =
            trace s @ ([Console (Attempt (attempt + 1)), Clock now] @ ext)"
          using ext(1) by (simp add: eq tr2)
        moreover have "length (filter is_attempt ([Console (Attempt (attempt + 1)), Clock now] @ ext))
                         \<le> 5 - attempt"
          using ext(2) go by auto
        moreover have "(case MAX_TOTAL_MS c of None \<Rightarrow> True
                        | Some m \<Rightarrow> deadline_respected start m
                            ([Console (Attempt (attempt + 1)), Clock now] @ ext))"
          using ext(3) False by (auto simp: deadline_passed_def split: option.splits)
        moreover have "Console UsingFallback \<notin> set ([Console (Attempt (attempt + 1)), Clock now] @ ext)"
          using ext(4) by simp
        moreover have "attempts_checked ([Console (Attempt (attempt + 1)), Clock now] @ ext)"
          using ext(5) by (cases ext) simp_all
        ultimately show ?thesis by blast
      qed
    qed
  qed
qed

lemma retry_loop_result:
  "ok_or_plain_failure r \<Longrightarrow> retry_loop c env start attempt r s = (Inr r', s') \<Longrightarrow>
   ok_or_plain_failure r'"
proof (induction c env start attempt r s rule: retry_loop.induct)
  case (1 c env start attempt r s)
  show ?case
  proof (cases "attempt < 5 \<and> \<not> ok r")
    case False
    with "1.prems" show ?thesis by (simp add: retry_loop_stop)
  next
    case go: True
    let ?s0 = "console_log (Attempt (attempt + 1)) s"
    obtain o1 s1 where ch: "lift (attempt_chain c env) ?s0 = (o1, s1)"
      by (cases "lift (attempt_chain c env) ?s0")
    show ?thesis
    proof (cases o1)
      case (Inl e)
      then have "retry_loop c env start attempt r s = (Inl e, s1)"
        using go ch by (simp add: retry_loop_throw)
      with "1.prems"(2) show ?thesis by simp
    next
      case (Inr r1)
      have g1: "ok_or_plain_failure r1"
        using lift_returns[OF returns_attempt_chain] ch Inr by blast
      let ?s1' = "if \<not> ok r1 then sleep env 500 s1 else s1"
      obtain now s2 where dn: "date_now env ?s1' = (now, s2)" by (cases "date_now env ?s1'")
      show ?thesis
      proof (cases "deadline_passed now start (MAX_TOTAL_MS c)")
        case True
        then have "retry_loop c env start attempt r s = (Inr r1, console_log TimeoutReached s2)"
          using go ch Inr dn by (simp add: retry_loop_break)
        with "1.prems"(2) g1 show ?thesis by simp
      next
        case False
        then have eq: "retry_loop c env start attempt r s
                         = retry_loop c env start (attempt + 1) r1 s2"
          using go ch Inr dn by (simp add: retry_loop_again)
        show ?thesis
          by (rule "1.IH"[OF go ch[symmetric] Inr dn[symmetric] False g1])
             (use "1.prems"(2) eq in simp)
      qed
    qed
  qed
qed

text \<open>
  C7: the retry loop is bounded by an attempt count of 5 and by a wall-clock deadline,
  each enforced on its own: failing attempts never exceed the count, and the loop stops
  retrying once the deadline has elapsed, whichever comes first. Here, of what \<open>main\<close>
  prints and reads in the loop: at most five attempt lines; every attempt that returns
  is followed by a reading of the clock; and, when \<open>MAX_TOTAL_MS\<close> is a number \<open>m\<close>,
  no attempt line comes after a reading later than \<open>start + m\<close>.
\<close>

theorem main_loop_bounded:
  "\<exists>ext. trace (snd (main_loop c env s)) =
            trace s @ [Clock (env_now env (world (inner s))), Console ClickAttempting] @ ext \<and>
         length (filter is_attempt ext) \<le> 5 \<and>
         attempts_checked ext \<and>
         (case MAX_TOTAL_MS c of
            None \<Rightarrow> True
          | Some m \<Rightarrow> deadline_respected (env_now env (world (inner s))) m ext)"
proof -
  let ?start = "env_now env (world (inner s))"
  let ?s1 = "console_log ClickAttempting (s\<lparr>trace := trace s @ [Clock ?start]\<rparr>)"
  have ml: "main_loop c env s = retry_loop c env ?start 0 fail_result ?s1"
    by (simp add: main_loop_def date_now_def)
  from retry_loop_trace[of c env ?start 0 fail_result ?s1]
  obtain ext where "trace (snd (retry_loop c env ?start 0 fail_result ?s1)) = trace ?s1 @ ext"
    "length (filter is_attempt ext) \<le> 5 - 0"
    "(case MAX_TOTAL_MS c of None \<Rightarrow> True | Some m \<Rightarrow> deadline_respected ?start m ext)"
    "attempts_checked ext"
    by blast
  then show ?thesis
    unfolding ml by (intro exI[of _ ext]) (simp add: console_log_def)
qed

lemma silent_env_simps:
  "env_now silent_env w = w" "env_sleep silent_env ms w = w + ms"
  "MAX_TOTAL_MS sample_cfg = Some 1200"
  by (simp_all add: silent_env_def sample_cfg_def)

lemma silent_trace:
  "trace (snd (main_loop sample_cfg silent_env start_state)) =
     [Clock 0, Console ClickAttempting, Console (Attempt 1), Clock 500, Console (Attempt 2),
      Clock 1000, Console (Attempt 3), Clock 1500, Console TimeoutReached]"
  by (simp add: main_loop_def date_now_def console_log_def retry_loop.simps lift_def silent_chain
      sleep_def deadline_passed_def start_state_def fail_result_def silent_env_simps)

lemma silent_trace_patient:
  "trace (snd (main_loop (sample_cfg\<lparr>MAX_TOTAL_MS := Some 20000\<rparr>) silent_env start_state)) =
     [Clock 0, Console ClickAttempting, Console (Attempt 1), Clock 500, Console (Attempt 2),
      Clock 1000, Console (Attempt 3), Clock 1500, Console (Attempt 4), Clock 2000,
      Console (Attempt 5), Clock 2500]"
  by (simp add: main_loop_def date_now_def console_log_def retry_loop.simps lift_def silent_chain
      sleep_def deadline_passed_def start_state_def fail_result_def silent_env_simps)

theorem main_loop_bounded_witness:
  "(\<exists>ext. trace (snd (main_loop sample_cfg silent_env start_state)) =
            trace start_state @ [Clock 0, Console ClickAttempting] @ ext \<and>
         length (filter is_attempt ext) \<le> 5 \<and> attempts_checked ext \<and>
         deadline_respected 0 1200 ext \<and>
         ext = [Console (Attempt 1), Clock 500, Console (Attempt 2), Clock 1000,
                Console (Attempt 3), Clock 1500, Console TimeoutReached]) \<and>
   (\<exists>ext. trace (snd (main_loop (sample_cfg\<lparr>MAX_TOTAL_MS := Some 20000\<rparr>) silent_env
                          start_state)) =
            trace start_state @ [Clock 0, Console ClickAttempting] @ ext \<and>
         length (filter is_attempt ext) \<le> 5 \<and> attempts_checked ext \<and>
         deadline_respected 0 20000 ext \<and>
         ext = [Console (Attempt 1), Clock 500, Console (Attempt 2), Clock 1000,
                Console (Attempt 3), Clock 1500, Console (Attempt 4), Clock 2000,
                Console (Attempt 5), Clock 2500])"
proof -
  have t0: "trace start_state = []" by (simp add: start_state_def)
  from main_loop_bounded[of sample_cfg silent_env start_state]
  obtain ext where ext: "trace (snd (main_loop sample_cfg silent_env start_state)) =
        trace start_state @ [Clock 0, Console ClickAttempting] @ ext"
    "length (filter is_attempt ext) \<le> 5" "attempts_checked ext" "deadline_respected 0 1200 ext"
    by (auto simp: silent_env_simps start_state_def)
  from t0 ext(1) have e1: "ext = [Console (Attempt 1), Clock 500, Console (Attempt 2), Clock 1000,
                Console (Attempt 3), Clock 1500, Console TimeoutReached]"
    by (simp add: silent_trace)
  from main_loop_bounded[of "sample_cfg\<lparr>MAX_TOTAL_MS := Some 20000\<rparr>" silent_env start_state]
  obtain ext2 where ext2: "trace (snd (main_loop (sample_cfg\<lparr>MAX_TOTAL_MS := Some 20000\<rparr>)
                                          silent_env start_state)) =
        trace start_state @ [Clock 0, Console ClickAttempting] @ ext2"
    "length (filter is_attempt ext2) \<le> 5" "attempts_checked ext2"
    "deadline_respected 0 20000 ext2"
    by (auto simp: silent_env_simps start_state_def)
  from t0 ext2(1) have e2: "ext2 = [Console (Attempt 1), Clock 500, Console (Attempt 2),
                Clock 1000, Console (Attempt 3), Clock 1500, Console (Attempt 4), Clock 2000,
                Console (Attempt 5), Clock 2500]"
    by (simp add: silent_trace_patient)
  from ext e1 ext2 e2 show ?thesis by blast
qed

subsection \<open>The two click paths of clickByAX\<close>

lemma native_attempt:
  "\<exists>pre. exchanges (snd (try_catch (clickByAX_native c env p) (ret None) s)) = exchanges s @ pre \<and>
     (\<forall>oid out. (Runtime_callFunctionOn oid ScrollAndClick, out) \<in> set pre \<longrightarrow>
        (\<exists>rn txt val.
           pre = [(DOM_resolveNode (bid p), Inr rn), (Runtime_callFunctionOn oid ReadText, Inr txt),
                  (Runtime_callFunctionOn oid ScrollAndClick, out)] \<and>
           object_objectId rn = Some oid \<and> oid \<noteq> [] \<and>
           text_value txt = Inr val \<and> js_includes val (AX_NAME c))) \<and>
     (\<forall>i m px py out. (Input_dispatchMouseEvent m px py, out) \<notin> set pre) \<and>
     (case fst (try_catch (clickByAX_native c env p) (ret None) s) of
        Inl e \<Rightarrow> False
      | Inr None \<Rightarrow> True
      | Inr (Some r) \<Rightarrow>
          r = click_result p ''callFunctionOn'' \<and>
          (\<exists>oid rep. last pre = (Runtime_callFunctionOn oid ScrollAndClick, Inr rep)))"
  unfolding clickByAX_native_def
  by (auto simp: bnd_def ret_def throw_def try_catch_def call_def truthy_str_def or_empty_def
      split: prod.splits sum.splits option.splits if_splits)

lemma dispatch_attempt:
  "\<exists>a. exchanges (snd (dispatch_click env px py s)) =
          exchanges s @ [(Input_dispatchMouseEvent MousePressed px py, a)] @
            (case a of Inl e \<Rightarrow> []
             | Inr v \<Rightarrow> [(Input_dispatchMouseEvent MouseReleased px py,
                           fst (env_call env (Input_dispatchMouseEvent MouseReleased px py)
                                  (snd (env_call env (Input_dispatchMouseEvent MousePressed px py)
                                          (world s)))))]) \<and>
       a = fst (env_call env (Input_dispatchMouseEvent MousePressed px py) (world s)) \<and>
       fst (dispatch_click env px py s) =
         (case a of Inl e \<Rightarrow> Inl e
          | Inr v \<Rightarrow>
              (case fst (env_call env (Input_dispatchMouseEvent MouseReleased px py)
                          (snd (env_call env (Input_dispatchMouseEvent MousePressed px py)
                                  (world s)))) of
                 Inl e \<Rightarrow> Inl e | Inr u \<Rightarrow> Inr ()))"
  unfolding dispatch_click_def
  by (auto simp: bnd_def ret_def call_def split: prod.splits sum.splits)

text \<open>
  C10: in the full accessibility-tree strategy the native scroll-and-click is taken
  only if an object reference was obtained and the node's text contains the target
  name; in every other case the strategy dispatches \<open>mousePressed\<close> and
  \<open>mouseReleased\<close> at the picked centre. Success is reported once the calls of the path
  taken have returned: the two dispatch calls stand outside the \<open>try\<close>, and a
  rejection of either leaves the strategy as an exception. Here, for the picked node
  \<open>p\<close> and the exchanges \<open>new\<close> the strategy adds: a scroll-and-click request is the
  third exchange, after a \<open>DOM.resolveNode\<close> that returned a non-empty object id and a
  text read that returned a text including the name; a returned result is either the
  native one, the last exchange being the click that returned, or the dispatch one,
  the last two exchanges being the press and the release at the centre, both returned;
  and an exception is the rejection of the press or of the release, the last exchange.
\<close>

theorem clickByAX_picked_paths:
  "\<exists>new. exchanges (snd (clickByAX_picked c env p s)) = exchanges s @ new \<and>
     (\<forall>oid out. (Runtime_callFunctionOn oid ScrollAndClick, out) \<in> set new \<longrightarrow>
        (\<exists>rn txt val.
           new ! 0 = (DOM_resolveNode (bid p), Inr rn) \<and> object_objectId rn = Some oid \<and>
           oid \<noteq> [] \<and> new ! 1 = (Runtime_callFunctionOn oid ReadText, Inr txt) \<and>
           text_value txt = Inr val \<and> js_includes val (AX_NAME c) \<and>
           new ! 2 = (Runtime_callFunctionOn oid ScrollAndClick, out))) \<and>
     (case fst (clickByAX_picked c env p s) of
        Inr r \<Rightarrow>
          (r = click_result p ''callFunctionOn'' \<and>
           (\<exists>oid rep. last new = (Runtime_callFunctionOn oid ScrollAndClick, Inr rep)))
          \<or> (r = click_result p ''dispatchMouseEvent'' \<and>
              (\<exists>pre a b. new = pre @
                 [(Input_dispatchMouseEvent MousePressed (cx p) (cy p), Inr a),
                  (Input_dispatchMouseEvent MouseReleased (cx p) (cy p), Inr b)]))
      | Inl e \<Rightarrow>
          (\<exists>pre. new = pre @ [(Input_dispatchMouseEvent MousePressed (cx p) (cy p), Inl e)])
          \<or> (\<exists>pre a. new = pre @
                 [(Input_dispatchMouseEvent MousePressed (cx p) (cy p), Inr a),
                  (Input_dispatchMouseEvent MouseReleased (cx p) (cy p), Inl e)]))"
proof -
  let ?N = "try_catch (clickByAX_native c env p) (ret None)"
  let ?click = "\<lambda>new. \<forall>oid out. (Runtime_callFunctionOn oid ScrollAndClick, out) \<in> set new \<longrightarrow>
        (\<exists>rn txt val.
           new ! 0 = (DOM_resolveNode (bid p), Inr rn) \<and> object_objectId rn = Some oid \<and>
           oid \<noteq> [] \<and> new ! 1 = (Runtime_callFunctionOn oid ReadText, Inr txt) \<and>
           text_value txt = Inr val \<and> js_includes val (AX_NAME c) \<and>
           new ! 2 = (Runtime_callFunctionOn oid ScrollAndClick, out))"
  obtain o1 s1 where n: "?N s = (o1, s1)" by (cases "?N s")
  from native_attempt[of c env p s] n obtain pre where
    pre: "exchanges s1 = exchanges s @ pre"
    and clk: "\<And>oid out. (Runtime_callFunctionOn oid ScrollAndClick, out) \<in> set pre \<Longrightarrow>
        \<exists>rn txt val.
           pre = [(DOM_resolveNode (bid p), Inr rn), (Runtime_callFunctionOn oid ReadText, Inr txt),
                  (Runtime_callFunctionOn oid ScrollAndClick, out)] \<and>
           object_objectId rn = Some oid \<and> oid \<noteq> [] \<and>
           text_value txt = Inr val \<and> js_includes val (AX_NAME c)"
    and res: "case o1 of Inl e \<Rightarrow> False | Inr None \<Rightarrow> True
              | Inr (Some r) \<Rightarrow> r = click_result p ''callFunctionOn'' \<and>
                  (\<exists>oid rep. last pre = (Runtime_callFunctionOn oid ScrollAndClick, Inr rep))"
    by auto
  have click_ext: "?click (pre @ more)"
    if "\<And>oid out. (Runtime_callFunctionOn oid ScrollAndClick, out) \<notin> set more" for more
  proof (intro allI impI)
    fix oid out
    assume "(Runtime_callFunctionOn oid ScrollAndClick, out) \<in> set (pre @ more)"
    with that have "(Runtime_callFunctionOn oid ScrollAndClick, out) \<in> set pre" by auto
    from clk[OF this] show "\<exists>rn txt val.
           (pre @ more) ! 0 = (DOM_resolveNode (bid p), Inr rn) \<and> object_objectId rn = Some oid \<and>
           oid \<noteq> [] \<and> (pre @ more) ! 1 = (Runtime_callFunctionOn oid ReadText, Inr txt) \<and>
           text_value txt = Inr val \<and> js_includes val (AX_NAME c) \<and>
           (pre @ more) ! 2 = (Runtime_callFunctionOn oid ScrollAndClick, out)"
      by (auto simp: nth_append)
  qed
  show ?thesis
  proof (cases o1)
    case (Inl e)
    with res show ?thesis by simp
  next
    case (Inr ro)
    show ?thesis
    proof (cases ro)
      case (Some r)
      then have run: "clickByAX_picked c env p s = (Inr r, s1)"
        by (simp add: clickByAX_picked_def bnd_def n Inr ret_def)
      from res Inr Some have r: "r = click_result p ''callFunctionOn''"
        "\<exists>oid rep. last pre = (Runtime_callFunctionOn oid ScrollAndClick, Inr rep)"
        by auto
      have c1: "?click pre" using click_ext[of "[]"] by simp
      have ex: "exchanges (snd (clickByAX_picked c env p s)) = exchanges s @ pre"
        by (simp add: run pre)
      have c2: "case fst (clickByAX_picked c env p s) of
        Inr r \<Rightarrow>
          (r = click_result p ''callFunctionOn'' \<and>
           (\<exists>oid rep. last pre = (Runtime_callFunctionOn oid ScrollAndClick, Inr rep)))
          \<or> (r = click_result p ''dispatchMouseEvent'' \<and>
              (\<exists>pre' a b. pre = pre' @
                 [(Input_dispatchMouseEvent MousePressed (cx p) (cy p), Inr a),
                  (Input_dispatchMouseEvent MouseReleased (cx p) (cy p), Inr b)]))
      | Inl e \<Rightarrow>
          (\<exists>pre'. pre = pre' @ [(Input_dispatchMouseEvent MousePressed (cx p) (cy p), Inl e)])
          \<or> (\<exists>pre' a. pre = pre' @
                 [(Input_dispatchMouseEvent MousePressed (cx p) (cy p), Inr a),
                  (Input_dispatchMouseEvent MouseReleased (cx p) (cy p), Inl e)])"
        using r by (simp add: run)
      show ?thesis
        by (intro exI[of _ pre] conjI) (fact ex, fact c1, fact c2)
    next
      case None
      let ?D = "dispatch_click env (cx p) (cy p)"
      let ?P = "Input_dispatchMouseEvent MousePressed (cx p) (cy p)"
      let ?R = "Input_dispatchMouseEvent MouseReleased (cx p) (cy p)"
      obtain od s2 where d: "?D s1 = (od, s2)" by (cases "?D s1")
      have run: "clickByAX_picked c env p s =
          (case od of Inl e \<Rightarrow> Inl e | Inr u \<Rightarrow> Inr (click_result p ''dispatchMouseEvent''), s2)"
        by (cases od) (simp_all add: clickByAX_picked_def bnd_def n Inr None ret_def d)
      from dispatch_attempt[of env "cx p" "cy p" s1] d obtain a b where
        dx: "exchanges s2 = exchanges s1 @ [(?P, a)] @ (case a of Inl e \<Rightarrow> [] | Inr v \<Rightarrow> [(?R, b)])"
        and dr: "od = (case a of Inl e \<Rightarrow> Inl e
                        | Inr v \<Rightarrow> (case b of Inl e \<Rightarrow> Inl e | Inr u \<Rightarrow> Inr ()))"
        by auto
      define new where "new = pre @ [(?P, a)] @ (case a of Inl e \<Rightarrow> [] | Inr v \<Rightarrow> [(?R, b)])"
      have ex: "exchanges (snd (clickByAX_picked c env p s)) = exchanges s @ new"
        by (simp add: run dx pre new_def)
      have c1: "?click new"
        unfolding new_def by (rule click_ext) (auto split: sum.splits)
      have c2: "case fst (clickByAX_picked c env p s) of
        Inr r \<Rightarrow>
          (r = click_result p ''callFunctionOn'' \<and>
           (\<exists>oid rep. last new = (Runtime_callFunctionOn oid ScrollAndClick, Inr rep)))
          \<or> (r = click_result p ''dispatchMouseEvent'' \<and>
              (\<exists>pre a b. new = pre @ [(?P, Inr a), (?R, Inr b)]))
      | Inl e \<Rightarrow>
          (\<exists>pre. new = pre @ [(?P, Inl e)])
          \<or> (\<exists>pre a. new = pre @ [(?P, Inr a), (?R, Inl e)])"
        unfolding run new_def using dr by (cases a; cases b) auto
      show ?thesis
        by (intro exI[of _ new] conjI) (fact ex, fact c1, fact c2)
    qed
  qed
qed

lemma ascii_simps:
  "ascii ''New chat'' = [78, 101, 119, 32, 99, 104, 97, 116]"
  "ascii ''+ New chat'' = [43, 32, 78, 101, 119, 32, 99, 104, 97, 116]"
  "ascii ''button'' = [98, 117, 116, 116, 111, 110]"
  "ascii ''obj-1'' = [111, 98, 106, 45, 49]"
  by (simp_all add: ascii_def)

lemma native_run:
  "clickByAX_picked sample_cfg native_env sample_picked \<lparr>world = (), exchanges = []\<rparr> =
     (Inr (click_result sample_picked ''callFunctionOn''),
      \<lparr>world = (), exchanges =
         [(DOM_resolveNode 7, Inr (empty_reply\<lparr>object_objectId := Some (ascii ''obj-1'')\<rparr>)),
          (Runtime_callFunctionOn (ascii ''obj-1'') ReadText,
           Inr (empty_reply\<lparr>result_value := Some (VString (ascii ''+ New chat''))\<rparr>)),
          (Runtime_callFunctionOn (ascii ''obj-1'') ScrollAndClick, Inr empty_reply)]\<rparr>)"
  by (simp add: clickByAX_picked_def clickByAX_native_def bnd_def ret_def try_catch_def call_def
      native_env_def sample_picked_def sample_cfg_def truthy_str_def or_empty_def text_value_def
      empty_reply_def ascii_simps)

theorem clickByAX_picked_paths_witness:
  "(Runtime_callFunctionOn (ascii ''obj-1'') ScrollAndClick, Inr empty_reply)
     \<in> set (exchanges (snd (clickByAX_picked sample_cfg native_env sample_picked
                               \<lparr>world = (), exchanges = []\<rparr>)))
   \<and> (\<exists>rn txt val.
         exchanges (snd (clickByAX_picked sample_cfg native_env sample_picked
                           \<lparr>world = (), exchanges = []\<rparr>)) ! 0
           = (DOM_resolveNode (bid sample_picked), Inr rn) \<and>
         object_objectId rn = Some (ascii ''obj-1'') \<and>
         exchanges (snd (clickByAX_picked sample_cfg native_env sample_picked
                           \<lparr>world = (), exchanges = []\<rparr>)) ! 1
           = (Runtime_callFunctionOn (ascii ''obj-1'') ReadText, Inr txt) \<and>
         text_value txt = Inr val \<and> js_includes val (AX_NAME sample_cfg))
   \<and> fst (clickByAX_picked sample_cfg native_env sample_picked \<lparr>world = (), exchanges = []\<rparr>)
       = Inr (click_result sample_picked ''callFunctionOn'')"
proof -
  let ?run = "clickByAX_picked sample_cfg native_env sample_picked \<lparr>world = (), exchanges = []\<rparr>"
  let ?click = "(Runtime_callFunctionOn (ascii ''obj-1'') ScrollAndClick, Inr empty_reply)"
  from clickByAX_picked_paths[of sample_cfg native_env sample_picked "\<lparr>world = (), exchanges = []\<rparr>"]
  obtain new where new: "exchanges (snd ?run) = [] @ new"
    and only: "\<forall>oid out. (Runtime_callFunctionOn oid ScrollAndClick, out) \<in> set new \<longrightarrow>
        (\<exists>rn txt val.
           new ! 0 = (DOM_resolveNode (bid sample_picked), Inr rn) \<and> object_objectId rn = Some oid \<and>
           oid \<noteq> [] \<and> new ! 1 = (Runtime_callFunctionOn oid ReadText, Inr txt) \<and>
           text_value txt = Inr val \<and> js_includes val (AX_NAME sample_cfg) \<and>
           new ! 2 = (Runtime_callFunctionOn oid ScrollAndClick, out))"
    by auto
  have mem: "?click \<in> set (exchanges (snd ?run))" by (simp add: native_run)
  then have "?click \<in> set new" using new by simp
  with only have "\<exists>rn txt val.
           new ! 0 = (DOM_resolveNode (bid sample_picked), Inr rn) \<and>
           object_objectId rn = Some (ascii ''obj-1'') \<and>
           new ! 1 = (Runtime_callFunctionOn (ascii ''obj-1'') ReadText, Inr txt) \<and>
           text_value txt = Inr val \<and> js_includes val (AX_NAME sample_cfg)"
    by blast
  moreover have "fst ?run = Inr (click_result sample_picked ''callFunctionOn'')"
    by (simp add: native_run)
  ultimately show ?thesis using mem new by simp
qed

text \<open>
  The claim as stated fails: with no object reference, and a press that is rejected,
  the strategy reports nothing; the rejection leaves \<open>clickByAX\<close> as an exception.
\<close>

theorem clickByAX_fallback_counterexample:
  "clickByAX sample_cfg stubborn_env \<lparr>world = (), exchanges = []\<rparr> =
     (Inl ''cdp timeout for Input.dispatchMouseEvent'',
      \<lparr>world = (), exchanges =
         [(Accessibility_getFullAXTree, Inr (empty_reply\<lparr>nodes := Some [new_chat_node]\<rparr>)),
          (DOM_getBoxModel 7, Inr (box_reply square_box)),
          (DOM_resolveNode 7, Inr empty_reply),
          (Input_dispatchMouseEvent MousePressed (Finite 35) (Finite 35),
           Inl ''cdp timeout for Input.dispatchMouseEvent'')]\<rparr>)"
proof -
  have bids: "ax_bids sample_cfg [new_chat_node] = [7]"
    by (simp add: ax_bids_def new_chat_node_def sample_cfg_def truthy_int_def truthy_str_def
        or_empty_def ascii_simps)
  have pick: "pickNode stubborn_env [7]
       \<lparr>world = (), exchanges = [(Accessibility_getFullAXTree,
                                   Inr (empty_reply\<lparr>nodes := Some [new_chat_node]\<rparr>))]\<rparr>
     = (Inr (Some \<lparr>bid = 7, cx = Finite 35, cy = Finite 35\<rparr>),
        \<lparr>world = (), exchanges =
         [(Accessibility_getFullAXTree, Inr (empty_reply\<lparr>nodes := Some [new_chat_node]\<rparr>)),
          (DOM_getBoxModel 7, Inr (box_reply square_box))]\<rparr>)"
    by (simp add: pickNode_def bnd_def ret_def call_def stubborn_env_def pick_step_def quad_of_def
        box_reply_def empty_reply_def square_box_geometry js_gt_def)
  have tree: "call stubborn_env Accessibility_getFullAXTree \<lparr>world = (), exchanges = []\<rparr>
      = (Inr (empty_reply\<lparr>nodes := Some [new_chat_node]\<rparr>),
         \<lparr>world = (), exchanges = [(Accessibility_getFullAXTree,
                                   Inr (empty_reply\<lparr>nodes := Some [new_chat_node]\<rparr>))]\<rparr>)"
    by (simp add: call_def stubborn_env_def)
  have nodes: "nodes (empty_reply\<lparr>nodes := Some [new_chat_node]\<rparr>) = Some [new_chat_node]"
    by simp
  have rest: "clickByAX_picked sample_cfg stubborn_env \<lparr>bid = 7, cx = Finite 35, cy = Finite 35\<rparr>
       \<lparr>world = (), exchanges =
         [(Accessibility_getFullAXTree, Inr (empty_reply\<lparr>nodes := Some [new_chat_node]\<rparr>)),
          (DOM_getBoxModel 7, Inr (box_reply square_box))]\<rparr>
     = (Inl ''cdp timeout for Input.dispatchMouseEvent'',
      \<lparr>world = (), exchanges =
         [(Accessibility_getFullAXTree, Inr (empty_reply\<lparr>nodes := Some [new_chat_node]\<rparr>)),
          (DOM_getBoxModel 7, Inr (box_reply square_box)),
          (DOM_resolveNode 7, Inr empty_reply),
          (Input_dispatchMouseEvent MousePressed (Finite 35) (Finite 35),
           Inl ''cdp timeout for Input.dispatchMouseEvent'')]\<rparr>)"
    by (simp add: clickByAX_picked_def clickByAX_native_def dispatch_click_def bnd_def ret_def
        try_catch_def call_def stubborn_env_def truthy_str_def empty_reply_def)
  show ?thesis
    unfolding clickByAX_def
    by (simp add: bnd_def tree nodes bids pick rest del: One_nat_def)
qed

subsection \<open>The verifier and the fallback branch of main\<close>

lemma verify_expr_state [simp]: "snd (verify_expr d s) = s"
  by (simp add: verify_expr_def split: option.splits prod.splits js_prop.splits)

lemma verify_expr_values:
  "fst (verify_expr d s) = Threw \<or> (\<exists>r. fst (verify_expr d s) = Value r \<and> ok_or_plain_failure r)"
  by (simp add: verify_expr_def ok_or_plain_failure_def
      split: option.splits prod.splits js_prop.splits)

lemma verifyNewChat_browser:
  "verifyNewChat (browser_env d) w =
     (Inr (case fst (verify_expr d (world w)) of Value r \<Rightarrow> VObject r | Threw \<Rightarrow> VObject fail_result),
      \<lparr>world = world w,
       exchanges = exchanges w @
         [(Runtime_evaluate VerifyExpr None, Inr (evaluate_reply (fst (verify_expr d (world w)))))]\<rparr>)"
  by (simp add: verifyNewChat_def bnd_def ret_def call_def browser_env_def evaluate_reply_def
      empty_reply_def js_truthy_def split: script_outcome.splits)

text \<open>
  C8: the verifier is read-only and idempotent. Here: the verification expression
  leaves the page and the list of effects as they are, evaluating it again on the state
  it leaves gives the same value, and two calls of \<open>verifyNewChat\<close> in succession
  against a browser that runs the expression leave its page untouched and return the
  same answer.
\<close>

theorem verify_read_only_idempotent:
  "snd (verify_expr d s) = s \<and>
   fst (verify_expr d (snd (verify_expr d s))) = fst (verify_expr d s) \<and>
   world (snd (verifyNewChat (browser_env d) w)) = world w \<and>
   fst (verifyNewChat (browser_env d) (snd (verifyNewChat (browser_env d) w)))
     = fst (verifyNewChat (browser_env d) w)"
  by (simp add: verifyNewChat_browser)

theorem verify_read_only_idempotent_witness:
  "snd (verify_expr chat_page \<lparr>page = (), effects = []\<rparr>) = \<lparr>page = (), effects = []\<rparr> \<and>
   fst (verify_expr chat_page \<lparr>page = (), effects = []\<rparr>)
     = Value \<lparr>ok = True, backendNodeId = None, x_pos = None, y_pos = None,
              via = Some ''verify''\<rparr> \<and>
   fst (verifyNewChat (browser_env chat_page)
          (snd (verifyNewChat (browser_env chat_page)
                  \<lparr>world = \<lparr>page = (), effects = []\<rparr>, exchanges = []\<rparr>)))
     = fst (verifyNewChat (browser_env chat_page)
              \<lparr>world = \<lparr>page = (), effects = []\<rparr>, exchanges = []\<rparr>)"
proof -
  have tag: "toLowerCase (ascii ''TEXTAREA'') = ascii ''textarea''"
    by (simp add: toLowerCase_def ascii_def lower_unit_def)
  have ph: "phMatch (ascii ''Message DeepSeek'')"
    by (simp add: phMatch_def ph_alternatives_def toLowerCase_def ascii_def lower_unit_def)
  have v: "fst (verify_expr chat_page \<lparr>page = (), effects = []\<rparr>)
     = Value \<lparr>ok = True, backendNodeId = None, x_pos = None, y_pos = None,
              via = Some ''verify''\<rparr>"
    by (simp add: verify_expr_def verify_selectors_def chat_page_def is_text_control_def tag
        trim_is_empty_def or_empty_def ph)
  from verify_read_only_idempotent[of chat_page "\<lparr>page = (), effects = []\<rparr>"
      "\<lparr>world = \<lparr>page = (), effects = []\<rparr>, exchanges = []\<rparr>"] v
  show ?thesis by simp
qed

lemma main_verify_result:
  "ok_or_plain_failure r \<Longrightarrow> main_verify env r s = (Inr r2, s2) \<Longrightarrow> ok_or_plain_failure r2"
  by (auto simp: main_verify_def ok_or_plain_failure_def split: if_splits prod.splits sum.splits
      js_value.splits)

lemma main_verify_trace:
  "\<exists>ext. trace (snd (main_verify env r s)) = trace s @ ext \<and> Console UsingFallback \<notin> set ext"
proof (cases "ok r")
  case True
  then show ?thesis by (simp add: main_verify_def)
next
  case False
  obtain o1 s1 where l: "lift (verifyNewChat env) (console_log Verifying s) = (o1, s1)"
    by (cases "lift (verifyNewChat env) (console_log Verifying s)")
  have "trace s1 = trace s @ [Console Verifying]"
    using arg_cong[OF l, of "\<lambda>p. trace (snd p)"] by (simp add: console_log_def)
  then have "trace (snd (main_verify env r s)) = trace s @ [Console Verifying]"
    using False l by (cases o1) (simp_all add: main_verify_def)
  then show ?thesis by simp
qed

lemma fallback_guard_never:
  "ok_or_plain_failure r \<Longrightarrow> \<not> fallback_guard r"
  by (auto simp: ok_or_plain_failure_def fallback_guard_def fail_result_def)

lemma main_loop_result:
  "main_loop c env s = (Inr r, s1) \<Longrightarrow> ok_or_plain_failure r"
  unfolding main_loop_def
  by (auto split: prod.splits dest!: retry_loop_result[OF returns_fail_result])

lemma main_loop_trace:
  "\<exists>ext. trace (snd (main_loop c env s)) = trace s @ ext \<and> Console UsingFallback \<notin> set ext"
proof -
  let ?start = "env_now env (world (inner s))"
  let ?s1 = "console_log ClickAttempting (s\<lparr>trace := trace s @ [Clock ?start]\<rparr>)"
  have ml: "main_loop c env s = retry_loop c env ?start 0 fail_result ?s1"
    by (simp add: main_loop_def date_now_def)
  from retry_loop_trace[of c env ?start 0 fail_result ?s1]
  obtain ext where e: "trace (snd (retry_loop c env ?start 0 fail_result ?s1)) = trace ?s1 @ ext"
    "Console UsingFallback \<notin> set ext"
    by blast
  have "trace (snd (main_loop c env s)) = trace s @ ([Clock ?start, Console ClickAttempting] @ ext)"
    unfolding ml e(1) by (simp add: console_log_def)
  moreover have "Console UsingFallback \<notin> set ([Clock ?start, Console ClickAttempting] @ ext)"
    using e(2) by simp
  ultimately show ?thesis by blast
qed

lemma main_click_no_fallback:
  "\<exists>ext. trace (snd (main_click c env s)) = trace s @ ext \<and> Console UsingFallback \<notin> set ext"
proof -
  obtain o1 s1 where l: "main_loop c env s = (o1, s1)" by (cases "main_loop c env s")
  from main_loop_trace[of c env s] l obtain e1 where
    e1: "trace s1 = trace s @ e1" "Console UsingFallback \<notin> set e1" by auto
  show ?thesis
  proof (cases o1)
    case (Inl e)
    then have "main_click c env s = (Inl e, s1)" by (simp add: main_click_def l)
    with e1 show ?thesis by auto
  next
    case (Inr r)
    have g: "ok_or_plain_failure r" using main_loop_result l Inr by blast
    obtain o2 s2 where v: "main_verify env r s1 = (o2, s2)" by (cases "main_verify env r s1")
    from main_verify_trace[of env r s1] v obtain e2 where
      e2: "trace s2 = trace s1 @ e2" "Console UsingFallback \<notin> set e2" by auto
    show ?thesis
    proof (cases o2)
      case (Inl e)
      then have "main_click c env s = (Inl e, s2)" by (simp add: main_click_def l Inr v)
      then have "trace (snd (main_click c env s)) = trace s @ (e1 @ e2)"
        by (simp add: e1 e2)
      moreover have "Console UsingFallback \<notin> set (e1 @ e2)" using e1 e2 by simp
      ultimately show ?thesis by blast
    next
      case r2: (Inr r2)
      have "ok_or_plain_failure r2" using main_verify_result[OF g] v r2 by blast
      then have ng: "\<not> fallback_guard r2" by (rule fallback_guard_never)
      then have "main_click c env s = (Inr r2, console_log (Result r2) s2)"
        by (simp add: main_click_def l Inr v r2 main_fallback_def)
      then have "trace (snd (main_click c env s)) = trace s @ (e1 @ e2 @ [Console (Result r2)])"
        by (simp add: e1 e2 console_log_def)
      moreover have "Console UsingFallback \<notin> set (e1 @ e2 @ [Console (Result r2)])"
        using e1 e2 by simp
      ultimately show ?thesis by blast
    qed
  qed
qed

lemma verifyNewChat_honest:
  assumes "fst (env_call env (Runtime_evaluate VerifyExpr None) (world s))
             = Inr (evaluate_reply (fst (verify_expr d ps)))"
  shows "\<exists>r. fst (verifyNewChat env s) = Inr (VObject r) \<and> ok_or_plain_failure r"
proof -
  obtain w' where c: "env_call env (Runtime_evaluate VerifyExpr None) (world s)
      = (Inr (evaluate_reply (fst (verify_expr d ps))), w')"
    using assms by (cases "env_call env (Runtime_evaluate VerifyExpr None) (world s)") auto
  from verify_expr_values[of d ps] show ?thesis
    by (auto simp: verifyNewChat_def bnd_def ret_def call_def c evaluate_reply_def empty_reply_def
        js_truthy_def ok_or_plain_failure_def)
qed

lemma silent_main_loop:
  "fst (main_loop sample_cfg silent_env start_state) = Inr fail_result"
  by (simp add: main_loop_def date_now_def console_log_def retry_loop.simps lift_def silent_chain
      sleep_def deadline_passed_def start_state_def fail_result_def silent_env_simps)

lemma silent_main_verify:
  "fst (main_verify silent_env fail_result ms) = Inr fail_result"
  by (simp add: main_verify_def lift_def verifyNewChat_def bnd_def ret_def call_def
      silent_env_def empty_reply_def fail_result_def console_log_def)

text \<open>
  C9: every failure result of the four click strategies and of the verifier has
  \<open>ok = false\<close> and neither \<open>x\<close> nor \<open>y\<close>, so the fallback branch of \<open>main\<close> is
  unreachable. Here: a result a strategy returns with \<open>ok\<close> false is the literal
  \<open>{ ok:false }\<close>, whatever the oracle answers; the verifier, when the reply carries
  the value of the verification expression on some page, returns an object that has
  \<open>ok\<close> true or is that literal; the guard of the fallback branch is false of every
  result that reaches it; and \<open>main\<close> never prints the line of that branch.
\<close>

theorem failure_results_plain:
  "(\<forall>s r s'. clickByAXQuery c env s = (Inr r, s') \<and> \<not> ok r \<longrightarrow> r = fail_result) \<and>
   (\<forall>s r s'. clickByAX c env s = (Inr r, s') \<and> \<not> ok r \<longrightarrow> r = fail_result) \<and>
   (\<forall>s r s'. clickByDOM c env s = (Inr r, s') \<and> \<not> ok r \<longrightarrow> r = fail_result) \<and>
   (\<forall>s r s'. clickByFrames c env s = (Inr r, s') \<and> \<not> ok r \<longrightarrow> r = fail_result) \<and>
   (\<forall>s d ps. fst (env_call env (Runtime_evaluate VerifyExpr None) (world s))
                 = Inr (evaluate_reply (fst (verify_expr d ps))) \<longrightarrow>
      (\<exists>r. fst (verifyNewChat env s) = Inr (VObject r) \<and> (ok r \<or> r = fail_result))) \<and>
   x_pos fail_result = None \<and> y_pos fail_result = None \<and> \<not> ok fail_result \<and>
   (\<forall>ms r ms1 r2 ms2. main_loop c env ms = (Inr r, ms1) \<and> main_verify env r ms1 = (Inr r2, ms2)
        \<longrightarrow> \<not> fallback_guard r2) \<and>
   (\<forall>ms. \<exists>ext. trace (snd (main_click c env ms)) = trace ms @ ext \<and>
                Console UsingFallback \<notin> set ext)"
proof (intro conjI allI impI)
  fix s r s' assume "clickByAXQuery c env s = (Inr r, s') \<and> \<not> ok r"
  then show "r = fail_result"
    using returnsD[OF returns_clickByAXQuery, of c env s r s'] by (auto simp: ok_or_plain_failure_def)
next
  fix s r s' assume "clickByAX c env s = (Inr r, s') \<and> \<not> ok r"
  then show "r = fail_result"
    using returnsD[OF returns_clickByAX, of c env s r s'] by (auto simp: ok_or_plain_failure_def)
next
  fix s r s' assume "clickByDOM c env s = (Inr r, s') \<and> \<not> ok r"
  then show "r = fail_result"
    using returnsD[OF returns_clickByDOM, of c env s r s'] by (auto simp: ok_or_plain_failure_def)
next
  fix s r s' assume "clickByFrames c env s = (Inr r, s') \<and> \<not> ok r"
  then show "r = fail_result"
    using returnsD[OF returns_clickByFrames, of c env s r s'] by (auto simp: ok_or_plain_failure_def)
next
  fix s :: "'a st" and d :: "'b dom" and ps
  assume "fst (env_call env (Runtime_evaluate VerifyExpr None) (world s))
                 = Inr (evaluate_reply (fst (verify_expr d ps)))"
  from verifyNewChat_honest[OF this]
  show "\<exists>r. fst (verifyNewChat env s) = Inr (VObject r) \<and> (ok r \<or> r = fail_result)"
    by (simp add: ok_or_plain_failure_def)
next
  show "x_pos fail_result = None" "y_pos fail_result = None" "\<not> ok fail_result"
    by (simp_all add: fail_result_def)
next
  fix ms r ms1 r2 ms2
  assume a: "main_loop c env ms = (Inr r, ms1) \<and> main_verify env r ms1 = (Inr r2, ms2)"
  then have "ok_or_plain_failure r" using main_loop_result by blast
  with a have "ok_or_plain_failure r2" using main_verify_result by blast
  then show "\<not> fallback_guard r2" by (rule fallback_guard_never)
next
  fix ms
  show "\<exists>ext. trace (snd (main_click c env ms)) = trace ms @ ext \<and>
                Console UsingFallback \<notin> set ext"
    by (rule main_click_no_fallback)
qed

theorem failure_results_plain_witness:
  "(\<exists>r s'. clickByAXQuery sample_cfg silent_env (inner start_state) = (Inr r, s') \<and> \<not> ok r
            \<and> r = fail_result) \<and>
   (\<exists>r s'. clickByAX sample_cfg silent_env (inner start_state) = (Inr r, s') \<and> \<not> ok r
            \<and> r = fail_result) \<and>
   (\<exists>r s'. clickByDOM sample_cfg silent_env (inner start_state) = (Inr r, s') \<and> \<not> ok r
            \<and> r = fail_result) \<and>
   (\<exists>r s'. clickByFrames sample_cfg silent_env (inner start_state) = (Inr r, s') \<and> \<not> ok r
            \<and> r = fail_result) \<and>
   fst (env_call (browser_env chat_page) (Runtime_evaluate VerifyExpr None)
          \<lparr>page = (), effects = []\<rparr>)
     = Inr (evaluate_reply (fst (verify_expr chat_page \<lparr>page = (), effects = []\<rparr>))) \<and>
   (\<exists>r. fst (verifyNewChat (browser_env chat_page)
                \<lparr>world = \<lparr>page = (), effects = []\<rparr>, exchanges = []\<rparr>) = Inr (VObject r)
        \<and> (ok r \<or> r = fail_result)) \<and>
   (\<exists>r ms1 r2 ms2. main_loop sample_cfg silent_env start_state = (Inr r, ms1) \<and>
        main_verify silent_env r ms1 = (Inr r2, ms2) \<and> \<not> fallback_guard r2) \<and>
   (\<exists>ext. trace (snd (main_click sample_cfg silent_env start_state)) = trace start_state @ ext \<and>
          Console UsingFallback \<notin> set ext)"
proof -
  note T = failure_results_plain[of sample_cfg silent_env]
  have nok: "\<not> ok fail_result" by (simp add: fail_result_def)
  have q1: "\<exists>r s'. clickByAXQuery sample_cfg silent_env (inner start_state) = (Inr r, s')
              \<and> \<not> ok r \<and> r = fail_result"
    using silent_AXQuery[of sample_cfg "inner start_state"] nok by blast
  have q2: "\<exists>r s'. clickByAX sample_cfg silent_env (inner start_state) = (Inr r, s')
              \<and> \<not> ok r \<and> r = fail_result"
    using silent_AX[of sample_cfg "inner start_state"] nok by blast
  have q3: "\<exists>r s'. clickByDOM sample_cfg silent_env (inner start_state) = (Inr r, s')
              \<and> \<not> ok r \<and> r = fail_result"
    using silent_DOM[of sample_cfg "inner start_state"] nok by blast
  have q4: "\<exists>r s'. clickByFrames sample_cfg silent_env (inner start_state) = (Inr r, s')
              \<and> \<not> ok r \<and> r = fail_result"
    using silent_Frames[of sample_cfg "inner start_state"] nok by blast
  have h: "fst (env_call (browser_env chat_page) (Runtime_evaluate VerifyExpr None)
          (world \<lparr>world = \<lparr>page = (), effects = []\<rparr>, exchanges = []\<rparr>))
     = Inr (evaluate_reply (fst (verify_expr chat_page \<lparr>page = (), effects = []\<rparr>)))"
    by (simp add: browser_env_def)
  from failure_results_plain[of sample_cfg "browser_env chat_page"] h
  have q5: "\<exists>r. fst (verifyNewChat (browser_env chat_page)
                \<lparr>world = \<lparr>page = (), effects = []\<rparr>, exchanges = []\<rparr>) = Inr (VObject r)
        \<and> (ok r \<or> r = fail_result)"
    by blast
  obtain ms1 where l: "main_loop sample_cfg silent_env start_state = (Inr fail_result, ms1)"
    using silent_main_loop by (cases "main_loop sample_cfg silent_env start_state") auto
  obtain ms2 where v: "main_verify silent_env fail_result ms1 = (Inr fail_result, ms2)"
    using silent_main_verify[of ms1] by (cases "main_verify silent_env fail_result ms1") auto
  from T l v have "\<not> fallback_guard fail_result" by blast
  with l v have q6: "\<exists>r ms1 r2 ms2. main_loop sample_cfg silent_env start_state = (Inr r, ms1) \<and>
        main_verify silent_env r ms1 = (Inr r2, ms2) \<and> \<not> fallback_guard r2"
    by blast
  from T have q7: "\<exists>ext. trace (snd (main_click sample_cfg silent_env start_state))
        = trace start_state @ ext \<and> Console UsingFallback \<notin> set ext"
    by blast
  from h have h': "fst (env_call (browser_env chat_page) (Runtime_evaluate VerifyExpr None)
          \<lparr>page = (), effects = []\<rparr>)
     = Inr (evaluate_reply (fst (verify_expr chat_page \<lparr>page = (), effects = []\<rparr>)))"
    by simp
  show ?thesis
    by (intro conjI) (fact q1, fact q2, fact q3, fact q4, fact h', fact q5, fact q6, fact q7)
qed

subsection \<open>The injected script\<close>

text \<open>
  C6: after entering the text the script first looks for a submit control and
  activates it, and dispatches an Enter key pair at the focused element only if none is
  found. The code does not keep this: lines 91-92 dispatch \<open>keydown\<close> and \<open>keyup\<close> of
  Enter on the input element, which the script has just focused, before the search for
  a button starts and whatever it finds. On a page with a textarea and a submit button
  the Enter pair goes to the textarea and the four mouse events to the button.
\<close>

theorem injection_enter_before_submit:
  "injection chat_page msg \<lparr>page = (), effects = []\<rparr> =
     (Injected Sel_textarea (ascii ''TEXTAREA'') False,
      \<lparr>page = (), effects =
         [Focus 1, SetValue 1 msg, DispatchInputEvent 1 msg, DispatchEvent 1 Ev_input,
          DispatchEvent 1 Ev_change,
          DispatchKey 1 Keydown_Enter, DispatchKey 1 Keyup_Enter,
          DispatchMouse 2 Pointerdown, DispatchMouse 2 Mousedown, DispatchMouse 2 Click,
          DispatchMouse 2 Mouseup]\<rparr>)"
proof -
  have tag: "toLowerCase (ascii ''TEXTAREA'') = ascii ''textarea''"
    by (simp add: toLowerCase_def ascii_def lower_unit_def)
  show ?thesis
    by (simp add: injection_def input_selectors_def button_selectors_def enter_text_def
        submit_def perform_all_def perform_def chat_page_def tag Let_def)
qed

end
